theory Spec2Isabelle
  imports Complex_Main "HOL-Library.Sublist"
begin

section \<open>JavaScript numbers\<close>

text \<open>
  The video processor computes with JavaScript numbers. A finite number is modelled by
  an exact rational, and the three values that are not finite are kept apart, so that a
  division by zero is what it is in JavaScript and not the \<open>0\<close> of HOL. The rounding
  error of binary64 arithmetic and the sign of zero are not modelled (every zero
  divisor of the program is a positive zero: a duration, a height, a difference).
\<close>

datatype jsnum = Num rat | PosInf | NegInf | NaN

fun js_div :: "jsnum \<Rightarrow> jsnum \<Rightarrow> jsnum" where
  "js_div NaN y = NaN"
| "js_div x NaN = NaN"
| "js_div (Num a) (Num b) =
     (if b \<noteq> 0 then Num (a / b)
      else if a = 0 then NaN
      else if 0 < a then PosInf else NegInf)"
| "js_div (Num a) PosInf = Num 0"
| "js_div (Num a) NegInf = Num 0"
| "js_div PosInf (Num b) = (if 0 \<le> b then PosInf else NegInf)"
| "js_div NegInf (Num b) = (if 0 \<le> b then NegInf else PosInf)"
| "js_div PosInf PosInf = NaN"
| "js_div PosInf NegInf = NaN"
| "js_div NegInf PosInf = NaN"
| "js_div NegInf NegInf = NaN"

fun js_mul :: "jsnum \<Rightarrow> jsnum \<Rightarrow> jsnum" where
  "js_mul NaN y = NaN"
| "js_mul x NaN = NaN"
| "js_mul (Num a) (Num b) = Num (a * b)"
| "js_mul (Num a) PosInf = (if a = 0 then NaN else if 0 < a then PosInf else NegInf)"
| "js_mul (Num a) NegInf = (if a = 0 then NaN else if 0 < a then NegInf else PosInf)"
| "js_mul PosInf (Num b) = (if b = 0 then NaN else if 0 < b then PosInf else NegInf)"
| "js_mul NegInf (Num b) = (if b = 0 then NaN else if 0 < b then NegInf else PosInf)"
| "js_mul PosInf PosInf = PosInf"
| "js_mul PosInf NegInf = NegInf"
| "js_mul NegInf PosInf = NegInf"
| "js_mul NegInf NegInf = PosInf"

text \<open>\<^verbatim>\<open>Math.round\<close>: the nearest integer, a tie going up; \<^verbatim>\<open>Math.min\<close>: \<^verbatim>\<open>NaN\<close> as soon as
  one argument is.\<close>

fun js_round :: "jsnum \<Rightarrow> jsnum" where
  "js_round (Num r) = Num (of_int \<lfloor>r + 1 / 2\<rfloor>)"
| "js_round x = x"

fun js_min :: "jsnum \<Rightarrow> jsnum \<Rightarrow> jsnum" where
  "js_min NaN y = NaN"
| "js_min x NaN = NaN"
| "js_min NegInf y = NegInf"
| "js_min x NegInf = NegInf"
| "js_min PosInf y = y"
| "js_min x PosInf = x"
| "js_min (Num a) (Num b) = Num (min a b)"

text \<open>Assigning a number to \<^verbatim>\<open>canvas.width\<close> converts it to an unsigned long: a value
  that is not finite becomes 0, a finite one is truncated and wraps modulo \<open>2\<^sup>3\<^sup>2\<close>.\<close>

fun to_unsigned_long :: "jsnum \<Rightarrow> nat" where
  "to_unsigned_long (Num r) =
     nat ((if 0 \<le> r then \<lfloor>r\<rfloor> else - \<lfloor>- r\<rfloor>) mod 2 ^ 32)"
| "to_unsigned_long x = 0"

section \<open>Blobs, errors, and what a run does\<close>

type_synonym byte = nat

text \<open>A \<^verbatim>\<open>Blob\<close> is its bytes and its MIME type; a \<^verbatim>\<open>File\<close> is a blob (its name is never
  read). \<^verbatim>\<open>new Blob(parts, {type})\<close> concatenates the parts in order.\<close>

datatype blob = Blob (blob_bytes: "byte list") (blob_type: string)

definition blob_size :: "blob \<Rightarrow> nat" where
  "blob_size b = length (blob_bytes b)"

definition new_blob :: "blob list \<Rightarrow> string \<Rightarrow> blob" where
  "new_blob parts ty = Blob (concat (map blob_bytes parts)) ty"

text \<open>\<open>Error m\<close> is \<^verbatim>\<open>new Error(m)\<close>; \<open>DOMException n\<close> is an exception of the platform
  (what the constructor of \<^verbatim>\<open>MediaRecorder\<close> throws, what \<^verbatim>\<open>play()\<close> is rejected with).\<close>

datatype error = Error string | DOMException string

datatype outcome = Pending | Resolved blob | Rejected error

datatype recording_state = Inactive | Recording | Paused

text \<open>
  Everything a run does to the outside, in the order in which it does it. The
  assignments that nothing here depends on (\<^verbatim>\<open>src\<close>, \<^verbatim>\<open>muted\<close>, \<^verbatim>\<open>playsInline\<close>,
  \<^verbatim>\<open>crossOrigin\<close>) are left out. The progress callback is the caller's; it is taken to
  return normally. \<open>startTime\<close> and \<open>endTime\<close> are finite numbers.
\<close>

datatype action =
    CreateVideo
  | CreateObjectURL
  | RevokeObjectURL
  | SetCurrentTime rat
  | SetPlaybackRate rat
  | Play
  | Pause
  | CreateCanvas nat nat
  | CaptureStream nat
  | NewRecorder string nat
  | RecorderStart
  | RecorderStop
  | DrawImage rat jsnum jsnum
  | Progress jsnum
  | RequestAnimationFrame
  | SetTimeout nat
  | CreateBlob blob
  | Resolve blob
  | Reject error
  | ConsoleError error
  | Uncaught error

text \<open>What the code reads from the video element when a tick runs.\<close>

record video_obs =
  paused :: bool
  ended :: bool
  currentTime :: rat

text \<open>What the platform answers: the state of the element when \<^verbatim>\<open>cutVideo\<close> looks at it,
  the metadata of the source, whether a 2D context is available, and the MIME types for
  which the \<^verbatim>\<open>MediaRecorder\<close> constructor does not throw.\<close>

record environment =
  readyState :: nat
  videoWidth :: nat
  videoHeight :: nat
  duration :: jsnum
  context2d :: bool
  supported :: "string \<Rightarrow> bool"

text \<open>
  The state of one run: the promise, the recorder (\<open>None\<close> until one is constructed), the
  \<^verbatim>\<open>chunks\<close> array, the handlers that are registered, the callbacks that are pending
  (\<^verbatim>\<open>play()\<close>, animation frames, timers), the \<^verbatim>\<open>stop\<close> event the recorder owes after an
  effective \<^verbatim>\<open>stop()\<close>, and the variables \<^verbatim>\<open>width\<close> and \<^verbatim>\<open>height\<close> (\<^verbatim>\<open>TARGET_WIDTH\<close> and
  \<^verbatim>\<open>TARGET_HEIGHT\<close>) of the closure. \<open>loaded\<close> says that \<^verbatim>\<open>loadedmetadata\<close> was dispatched.
\<close>

record run =
  trace :: "action list"
  outcome :: outcome
  recorder :: "recording_state option"
  stop_pending :: bool
  chunks :: "blob list"
  canvas :: "(nat \<times> nat) option"
  width :: jsnum
  height :: jsnum
  onerror :: bool
  onloadedmetadata :: bool
  onloadeddata :: bool
  onended :: bool
  loaded :: bool
  play_pending :: bool
  raf :: nat
  timers :: nat

definition init :: run where
  "init = \<lparr> trace = [], outcome = Pending, recorder = None, stop_pending = False,
     chunks = [], canvas = None, width = Num 0, height = Num 0,
     onerror = False, onloadedmetadata = False, onloadeddata = False, onended = False,
     loaded = False, play_pending = False, raf = 0, timers = 0 \<rparr>"

text \<open>A handler is a sequence of statements, run from the first to the last.\<close>

fun steps :: "(run \<Rightarrow> run) list \<Rightarrow> run \<Rightarrow> run" where
  "steps [] s = s"
| "steps (f # fs) s = steps fs (f s)"

definition act :: "action \<Rightarrow> run \<Rightarrow> run" where
  "act a s = s\<lparr>trace := trace s @ [a]\<rparr>"

definition onProgress :: "jsnum \<Rightarrow> run \<Rightarrow> run" where
  "onProgress p = act (Progress p)"

text \<open>A promise settles once: a later \<^verbatim>\<open>resolve\<close> or \<^verbatim>\<open>reject\<close> is a call without effect.\<close>

definition resolve :: "blob \<Rightarrow> run \<Rightarrow> run" where
  "resolve b s =
     act (Resolve b) (s\<lparr>outcome := (if outcome s = Pending then Resolved b else outcome s)\<rparr>)"

definition reject :: "error \<Rightarrow> run \<Rightarrow> run" where
  "reject e s =
     act (Reject e) (s\<lparr>outcome := (if outcome s = Pending then Rejected e else outcome s)\<rparr>)"

definition requestAnimationFrame :: "run \<Rightarrow> run" where
  "requestAnimationFrame s = act RequestAnimationFrame (s\<lparr>raf := raf s + 1\<rparr>)"

definition setTimeout :: "nat \<Rightarrow> run \<Rightarrow> run" where
  "setTimeout ms s = act (SetTimeout ms) (s\<lparr>timers := timers s + 1\<rparr>)"

definition video_play :: "run \<Rightarrow> run" where
  "video_play s = act Play (s\<lparr>play_pending := True\<rparr>)"

definition createCanvas :: "jsnum \<Rightarrow> jsnum \<Rightarrow> run \<Rightarrow> run" where
  "createCanvas w h s =
     act (CreateCanvas (to_unsigned_long w) (to_unsigned_long h))
       (s\<lparr>canvas := Some (to_unsigned_long w, to_unsigned_long h), width := w, height := h\<rparr>)"

text \<open>
  The recorder of the platform. A new recorder is inactive and has no chunk; \<^verbatim>\<open>start()\<close>
  is only ever called on the recorder just constructed. \<^verbatim>\<open>stop()\<close> on an inactive
  recorder returns at once (MediaStream Recording, the \<^verbatim>\<open>stop()\<close> method, step 2);
  otherwise the recorder becomes inactive and owes its \<^verbatim>\<open>stop\<close> event.
\<close>

definition newRecorder :: "string \<Rightarrow> nat \<Rightarrow> run \<Rightarrow> run" where
  "newRecorder mime bps s =
     act (NewRecorder mime bps) (s\<lparr>recorder := Some Inactive, chunks := []\<rparr>)"

definition recorder_start :: "run \<Rightarrow> run" where
  "recorder_start s = act RecorderStart (s\<lparr>recorder := Some Recording\<rparr>)"

definition recorder_stop :: "run \<Rightarrow> run" where
  "recorder_stop s =
     (let active = (recorder s = Some Recording \<or> recorder s = Some Paused)
      in act RecorderStop
           (s\<lparr>recorder := (if active then Some Inactive else recorder s),
              stop_pending := (active \<or> stop_pending s)\<rparr>))"

section \<open>The handlers shared by the two operations\<close>

text \<open>\<^verbatim>\<open>video.onerror\<close>, \<^verbatim>\<open>mediaRecorder.ondataavailable\<close> and \<^verbatim>\<open>mediaRecorder.onstop\<close> are
  the same text in \<^verbatim>\<open>compressVideo\<close> and in \<^verbatim>\<open>cutVideo\<close>.\<close>

definition video_onerror :: "run \<Rightarrow> run" where
  "video_onerror = steps [act RevokeObjectURL, reject (Error ''Video load failed'')]"

definition ondataavailable :: "blob \<Rightarrow> run \<Rightarrow> run" where
  "ondataavailable d s = (if blob_size d > 0 then s\<lparr>chunks := chunks s @ [d]\<rparr> else s)"

definition onstop :: "run \<Rightarrow> run" where
  "onstop s =
     (let blob = new_blob (chunks s) ''video/webm''
      in steps [act (CreateBlob blob), act RevokeObjectURL, resolve blob] s)"

section \<open>compressVideo\<close>

definition compress_drawFrame :: "environment \<Rightarrow> video_obs \<Rightarrow> run \<Rightarrow> run" where
  "compress_drawFrame env v s =
     (if paused v \<or> ended v then s
      else steps
        [act (DrawImage (currentTime v) (width s) (height s)),
         onProgress (js_min (Num 99)
           (js_round (js_mul (js_div (Num (currentTime v)) (duration env)) (Num 100)))),
         requestAnimationFrame] s)"

definition compress_onloadedmetadata :: "environment \<Rightarrow> run \<Rightarrow> run" where
  "compress_onloadedmetadata env s =
     (let TARGET_HEIGHT = Num 360;
          aspectRatio = js_div (Num (of_nat (videoWidth env))) (Num (of_nat (videoHeight env)));
          TARGET_WIDTH = js_round (js_mul TARGET_HEIGHT aspectRatio);
          s1 = createCanvas TARGET_WIDTH TARGET_HEIGHT s
      in if \<not> context2d env
         then steps [act RevokeObjectURL, reject (Error ''Canvas context failed'')] s1
         else if \<not> supported env ''video/webm;codecs=vp8''
         then steps [act (CaptureStream 15), act (Uncaught (DOMException ''NotSupportedError''))] s1
         else steps
           [act (CaptureStream 15),
            newRecorder ''video/webm;codecs=vp8'' 600000,
            recorder_start,
            act (SetPlaybackRate 2),
            video_play,
            (\<lambda>s. s\<lparr>onended := True\<rparr>)] s1)"

definition compress_play_catch :: "error \<Rightarrow> run \<Rightarrow> run" where
  "compress_play_catch e = steps [act (ConsoleError e), reject e]"

definition compress_onended :: "run \<Rightarrow> run" where
  "compress_onended = setTimeout 100"

definition compress_timeout :: "run \<Rightarrow> run" where
  "compress_timeout = steps [recorder_stop, onProgress (Num 100)]"

definition compressVideo :: "environment \<Rightarrow> blob \<Rightarrow> run" where
  "compressVideo env file =
     (if blob_size file < 20 * 1024 * 1024
      then steps [onProgress (Num 100), resolve file] init
      else steps
        [act CreateVideo,
         act CreateObjectURL,
         (\<lambda>s. s\<lparr>onerror := True\<rparr>),
         (\<lambda>s. s\<lparr>onloadedmetadata := True\<rparr>)] init)"

section \<open>cutVideo\<close>

definition cut_drawFrame :: "rat \<Rightarrow> rat \<Rightarrow> video_obs \<Rightarrow> run \<Rightarrow> run" where
  "cut_drawFrame startTime endTime v s =
     (if paused v \<or> ended v \<or> currentTime v \<ge> endTime
      then steps
        [(\<lambda>s. if recorder s = Some Recording
              then steps [recorder_stop, onProgress (Num 100)] s else s),
         act Pause] s
      else
        (let duration = endTime - startTime;
             current = currentTime v - startTime;
             percent = js_min (Num 99)
               (js_round (js_mul (js_div (Num current) (Num duration)) (Num 100)))
         in steps
           [act (DrawImage (currentTime v) (width s) (height s)),
            onProgress percent,
            requestAnimationFrame] s))"

definition cut_timeout :: "run \<Rightarrow> run" where
  "cut_timeout = steps [recorder_start, act (SetPlaybackRate 1), video_play]"

text \<open>\<^verbatim>\<open>startProcessing\<close> returns the state together with the exception it threw, if any:
  the second \<^verbatim>\<open>MediaRecorder\<close> constructor is outside the \<^verbatim>\<open>try\<close>.\<close>

definition startProcessing :: "environment \<Rightarrow> rat \<Rightarrow> run \<Rightarrow> run \<times> error option" where
  "startProcessing env startTime s =
     (let MAX_HEIGHT = 720;
          (w, h) =
            (if videoHeight env > MAX_HEIGHT
             then (let ratio = js_div (Num (of_nat (videoWidth env))) (Num (of_nat (videoHeight env)))
                   in (js_round (js_mul (Num (of_nat MAX_HEIGHT)) ratio), Num (of_nat MAX_HEIGHT)))
             else (Num (of_nat (videoWidth env)), Num (of_nat (videoHeight env))));
          s1 = createCanvas w h s
      in if \<not> context2d env
         then (steps [act RevokeObjectURL, reject (Error ''Canvas context failed'')] s1, None)
         else
           (let s2 = act (CaptureStream 30) s1;
                arm = steps [act (SetCurrentTime startTime), setTimeout 200]
            in if supported env ''video/webm;codecs=vp9''
               then (arm (newRecorder ''video/webm;codecs=vp9'' 2500000 s2), None)
               else if supported env ''video/webm''
               then (arm (newRecorder ''video/webm'' 2500000 s2), None)
               else (s2, Some (DOMException ''NotSupportedError''))))"

definition cutVideo :: "environment \<Rightarrow> blob \<Rightarrow> rat \<Rightarrow> rat \<Rightarrow> run" where
  "cutVideo env file startTime endTime =
     (let s = steps
        [act CreateVideo,
         act CreateObjectURL,
         act (SetCurrentTime startTime),
         (\<lambda>s. s\<lparr>onerror := True\<rparr>),
         (\<lambda>s. s\<lparr>onloadeddata := True\<rparr>)] init
      in if readyState env \<ge> 1
         then (case startProcessing env startTime s of
                 (s', None) \<Rightarrow> s'
               | (s', Some e) \<Rightarrow> reject e s')
         else s\<lparr>onloadedmetadata := True\<rparr>)"

section \<open>The event loop\<close>

text \<open>
  The platform calls the handlers. An event whose handler is not registered, or a
  callback that is not pending, does nothing. The platform dispatches \<^verbatim>\<open>loadedmetadata\<close>
  once (the source is assigned once), and the recorder's \<^verbatim>\<open>stop\<close> event once for every
  effective \<^verbatim>\<open>stop()\<close>. An exception that leaves an event handler is reported and the
  promise is left as it is.
\<close>

datatype event =
    LoadedMetadata
  | LoadedData
  | Seeked
  | CanPlay
  | VideoError
  | PlayFulfilled video_obs
  | PlayRejected error
  | AnimationFrame video_obs
  | Ended
  | TimerFired
  | DataAvailable blob
  | RecorderStopped

fun compress_fire :: "environment \<Rightarrow> event \<Rightarrow> run \<Rightarrow> run" where
  "compress_fire env LoadedMetadata s =
     (if onloadedmetadata s \<and> \<not> loaded s
      then compress_onloadedmetadata env (s\<lparr>loaded := True\<rparr>) else s)"
| "compress_fire env VideoError s = (if onerror s then video_onerror s else s)"
| "compress_fire env (PlayFulfilled v) s =
     (if play_pending s then compress_drawFrame env v (s\<lparr>play_pending := False\<rparr>) else s)"
| "compress_fire env (PlayRejected e) s =
     (if play_pending s then compress_play_catch e (s\<lparr>play_pending := False\<rparr>) else s)"
| "compress_fire env (AnimationFrame v) s =
     (if raf s > 0 then compress_drawFrame env v (s\<lparr>raf := raf s - 1\<rparr>) else s)"
| "compress_fire env Ended s = (if onended s then compress_onended s else s)"
| "compress_fire env TimerFired s =
     (if timers s > 0 then compress_timeout (s\<lparr>timers := timers s - 1\<rparr>) else s)"
| "compress_fire env (DataAvailable d) s =
     (if recorder s \<noteq> None then ondataavailable d s else s)"
| "compress_fire env RecorderStopped s =
     (if stop_pending s then onstop (s\<lparr>stop_pending := False\<rparr>) else s)"
| "compress_fire env LoadedData s = s"
| "compress_fire env Seeked s = s"
| "compress_fire env CanPlay s = s"

fun cut_fire :: "environment \<Rightarrow> rat \<Rightarrow> rat \<Rightarrow> event \<Rightarrow> run \<Rightarrow> run" where
  "cut_fire env startTime endTime LoadedMetadata s =
     (if onloadedmetadata s \<and> \<not> loaded s
      then (case startProcessing env startTime (s\<lparr>loaded := True\<rparr>) of
              (s', None) \<Rightarrow> s'
            | (s', Some e) \<Rightarrow> act (Uncaught e) s')
      else s)"
| "cut_fire env startTime endTime LoadedData s =
     (if onloadeddata s then act (SetCurrentTime startTime) s else s)"
| "cut_fire env startTime endTime Seeked s = s"
| "cut_fire env startTime endTime CanPlay s = s"
| "cut_fire env startTime endTime VideoError s = (if onerror s then video_onerror s else s)"
| "cut_fire env startTime endTime (PlayFulfilled v) s =
     (if play_pending s then cut_drawFrame startTime endTime v (s\<lparr>play_pending := False\<rparr>) else s)"
| "cut_fire env startTime endTime (PlayRejected e) s =
     (if play_pending s then reject e (s\<lparr>play_pending := False\<rparr>) else s)"
| "cut_fire env startTime endTime (AnimationFrame v) s =
     (if raf s > 0 then cut_drawFrame startTime endTime v (s\<lparr>raf := raf s - 1\<rparr>) else s)"
| "cut_fire env startTime endTime Ended s = s"
| "cut_fire env startTime endTime TimerFired s =
     (if timers s > 0 then cut_timeout (s\<lparr>timers := timers s - 1\<rparr>) else s)"
| "cut_fire env startTime endTime (DataAvailable d) s =
     (if recorder s \<noteq> None then ondataavailable d s else s)"
| "cut_fire env startTime endTime RecorderStopped s =
     (if stop_pending s then onstop (s\<lparr>stop_pending := False\<rparr>) else s)"

definition compress_run :: "environment \<Rightarrow> blob \<Rightarrow> event list \<Rightarrow> run" where
  "compress_run env file evs = foldl (\<lambda>s e. compress_fire env e s) (compressVideo env file) evs"

definition cut_run :: "environment \<Rightarrow> blob \<Rightarrow> rat \<Rightarrow> rat \<Rightarrow> event list \<Rightarrow> run" where
  "cut_run env file startTime endTime evs =
     foldl (\<lambda>s e. cut_fire env startTime endTime e s) (cutVideo env file startTime endTime) evs"

section \<open>Reading traces and event lists\<close>

text \<open>What a trace says: the values given to the progress callback, the times of the
  frames that were sampled with the size they were drawn at, the canvases that were
  created, and the blobs the recorder's output was put together into. What a list of
  events says: the times the ticks read, and the data the recorder emitted.\<close>

definition progress_of :: "action list \<Rightarrow> jsnum list" where
  "progress_of as = concat (map (\<lambda>a. case a of Progress p \<Rightarrow> [p] | _ \<Rightarrow> []) as)"

definition frames_of :: "action list \<Rightarrow> rat list" where
  "frames_of as = concat (map (\<lambda>a. case a of DrawImage t w h \<Rightarrow> [t] | _ \<Rightarrow> []) as)"

definition frame_sizes_of :: "action list \<Rightarrow> (jsnum \<times> jsnum) list" where
  "frame_sizes_of as = concat (map (\<lambda>a. case a of DrawImage t w h \<Rightarrow> [(w, h)] | _ \<Rightarrow> []) as)"

definition canvases_of :: "action list \<Rightarrow> (nat \<times> nat) list" where
  "canvases_of as = concat (map (\<lambda>a. case a of CreateCanvas w h \<Rightarrow> [(w, h)] | _ \<Rightarrow> []) as)"

definition blobs_of :: "action list \<Rightarrow> blob list" where
  "blobs_of as = concat (map (\<lambda>a. case a of CreateBlob b \<Rightarrow> [b] | _ \<Rightarrow> []) as)"

definition tick_times :: "event list \<Rightarrow> rat list" where
  "tick_times es = concat (map (\<lambda>e. case e of PlayFulfilled v \<Rightarrow> [currentTime v]
      | AnimationFrame v \<Rightarrow> [currentTime v] | _ \<Rightarrow> []) es)"

definition emitted :: "event list \<Rightarrow> blob list" where
  "emitted es = concat (map (\<lambda>e. case e of DataAvailable d \<Rightarrow> [d] | _ \<Rightarrow> []) es)"

text \<open>\<open>precedes a P as\<close>: scanning \<open>as\<close> from the left, \<open>a\<close> is met before any element that
  satisfies \<open>P\<close>. \<open>each_after a P prev as\<close>: every element of \<open>as\<close> that satisfies \<open>P\<close> comes
  directly after an \<open>a\<close> (\<open>prev\<close> is what stands before the list).\<close>

fun precedes :: "'a \<Rightarrow> ('a \<Rightarrow> bool) \<Rightarrow> 'a list \<Rightarrow> bool" where
  "precedes a P [] = True"
| "precedes a P (x # xs) = (x = a \<or> (\<not> P x \<and> precedes a P xs))"

fun each_after :: "'a \<Rightarrow> ('a \<Rightarrow> bool) \<Rightarrow> 'a option \<Rightarrow> 'a list \<Rightarrow> bool" where
  "each_after a P prev [] = True"
| "each_after a P prev (x # xs) = ((P x \<longrightarrow> prev = Some a) \<and> each_after a P (Some x) xs)"


text \<open>The test of \<^verbatim>\<open>ondataavailable\<close>: \<^verbatim>\<open>e.data.size > 0\<close>.\<close>

definition nonempty :: "blob \<Rightarrow> bool" where
  "nonempty d \<longleftrightarrow> blob_size d > 0"

section \<open>The values the handlers compute\<close>

text \<open>The width of the canvas of \<^verbatim>\<open>compressVideo\<close> (\<^verbatim>\<open>TARGET_WIDTH\<close>), the width and height
  \<^verbatim>\<open>startProcessing\<close> arrives at, and the percentage a tick of \<^verbatim>\<open>cutVideo\<close> reports when
  the range is not empty.\<close>

definition compress_width :: "environment \<Rightarrow> jsnum" where
  "compress_width env =
     js_round (js_mul (Num 360) (js_div (Num (of_nat (videoWidth env))) (Num (of_nat (videoHeight env)))))"

definition cut_width :: "environment \<Rightarrow> jsnum" where
  "cut_width env =
     (if videoHeight env > 720
      then js_round (js_mul (Num 720) (js_div (Num (of_nat (videoWidth env))) (Num (of_nat (videoHeight env)))))
      else Num (of_nat (videoWidth env)))"

definition cut_height :: "environment \<Rightarrow> jsnum" where
  "cut_height env = (if videoHeight env > 720 then Num 720 else Num (of_nat (videoHeight env)))"



section \<open>The phases of an extraction\<close>

text \<open>
  A run of \<^verbatim>\<open>cutVideo\<close> waits for the metadata, then for its timer, then for \<^verbatim>\<open>play()\<close>,
  then it ticks, and then nothing is pending any more. Until then the recorder was
  never stopped and the video never paused.
\<close>

definition settled :: "run \<Rightarrow> bool" where
  "settled s \<longleftrightarrow> (onloadedmetadata s \<longrightarrow> loaded s)"

definition untouched :: "run \<Rightarrow> bool" where
  "untouched s \<longleftrightarrow> RecorderStop \<notin> set (trace s) \<and> Pause \<notin> set (trace s)"

definition awaiting :: "run \<Rightarrow> bool" where
  "awaiting s \<longleftrightarrow> onloadedmetadata s \<and> \<not> loaded s \<and> timers s = 0 \<and> raf s = 0 \<and> \<not> play_pending s
     \<and> recorder s = None \<and> chunks s = [] \<and> untouched s"

definition armed :: "run \<Rightarrow> bool" where
  "armed s \<longleftrightarrow> settled s \<and> timers s = 1 \<and> raf s = 0 \<and> \<not> play_pending s
     \<and> recorder s = Some Inactive \<and> untouched s"

definition starting :: "run \<Rightarrow> bool" where
  "starting s \<longleftrightarrow> settled s \<and> timers s = 0 \<and> raf s = 0 \<and> play_pending s
     \<and> recorder s = Some Recording \<and> untouched s"

definition ticking :: "run \<Rightarrow> bool" where
  "ticking s \<longleftrightarrow> settled s \<and> timers s = 0 \<and> raf s = 1 \<and> \<not> play_pending s
     \<and> recorder s = Some Recording \<and> untouched s"

definition idle :: "run \<Rightarrow> bool" where
  "idle s \<longleftrightarrow> settled s \<and> timers s = 0 \<and> raf s = 0 \<and> \<not> play_pending s
     \<and> (recorder s = Some Recording \<longrightarrow> RecorderStop \<notin> set (trace s))
     \<and> (recorder s = None \<longrightarrow> chunks s = [])"

definition cut_inv :: "run \<Rightarrow> bool" where
  "cut_inv s \<longleftrightarrow> awaiting s \<or> armed s \<or> starting s \<or> ticking s \<or> idle s"





text \<open>Actions that sample no frame and request no tick; a trace in which only such
  actions come after a \<^verbatim>\<open>pause()\<close>.\<close>

definition quiet_actions :: "action list \<Rightarrow> bool" where
  "quiet_actions as \<longleftrightarrow> frames_of as = [] \<and> RequestAnimationFrame \<notin> set as"

definition calm :: "action list \<Rightarrow> bool" where
  "calm as \<longleftrightarrow> (\<forall>pre post. as = pre @ Pause # post \<longrightarrow> quiet_actions post)"



text \<open>How many times the recorder's output can still be put together, plus how many
  times it was: the recorder is started once and each effective stop is answered once.\<close>

definition cut_budget :: "run \<Rightarrow> nat" where
  "cut_budget s =
     length (blobs_of (trace s)) + (if stop_pending s then 1 else 0)
     + (if recorder s = Some Recording \<or> recorder s = Some Paused then 1 else 0)
     + timers s + (if onloadedmetadata s \<and> \<not> loaded s then 1 else 0)"

definition compress_budget :: "run \<Rightarrow> nat" where
  "compress_budget s =
     length (blobs_of (trace s)) + (if stop_pending s then 1 else 0)
     + (if recorder s = Some Recording \<or> recorder s = Some Paused then 1 else 0)
     + (if onloadedmetadata s \<and> \<not> loaded s then 1 else 0)"

text \<open>The state of \<^verbatim>\<open>cutVideo\<close> when it reaches the test of \<^verbatim>\<open>readyState\<close>.\<close>

definition cut_called :: "rat \<Rightarrow> run" where
  "cut_called st = init\<lparr>trace := [CreateVideo, CreateObjectURL, SetCurrentTime st],
     onerror := True, onloadeddata := True\<rparr>"

text \<open>To compare a run that fell back to the default encoder with the run of a platform
  that accepts VP9: the platform, and the trace with the name of the encoder replaced.\<close>

definition relabel :: "action \<Rightarrow> action" where
  "relabel a = (if a = NewRecorder ''video/webm;codecs=vp9'' 2500000
                then NewRecorder ''video/webm'' 2500000 else a)"

definition relabelled :: "run \<Rightarrow> run" where
  "relabelled s = s\<lparr>trace := map relabel (trace s)\<rparr>"

definition with_vp9 :: "environment \<Rightarrow> environment" where
  "with_vp9 env = env\<lparr>supported := (\<lambda>m. m = ''video/webm;codecs=vp9'' \<or> supported env m)\<rparr>"

section \<open>Sample inputs\<close>

text \<open>The state in which the fast path of \<^verbatim>\<open>compressVideo\<close> leaves the run.\<close>

definition fast_path :: "blob \<Rightarrow> run" where
  "fast_path file = init\<lparr>trace := [Progress (Num 100), Resolve file], outcome := Resolved file\<rparr>"

text \<open>A platform and a source to run the model on: a 1920 by 1080 video of one minute,
  a 2D context, every codec accepted; what a tick reads while the video plays; a file
  below and a file at the threshold of \<^verbatim>\<open>compressVideo\<close>.\<close>

definition sample_env :: environment where
  "sample_env = \<lparr> readyState = 0, videoWidth = 1920, videoHeight = 1080, duration = Num 60,
     context2d = True, supported = (\<lambda>m. True) \<rparr>"

definition playing :: "rat \<Rightarrow> video_obs" where
  "playing t = \<lparr> paused = False, ended = False, currentTime = t \<rparr>"

definition small_file :: blob where
  "small_file = Blob [1, 2, 3] ''video/mp4''"

definition big_file :: blob where
  "big_file = Blob (replicate 20971520 0) ''video/mp4''"

text \<open>Event lists: an extraction of the range from 10 to 20 up to the tick that reads the
  end of the range, the same run with the recorder's data and its \<^verbatim>\<open>stop\<close> event, and a
  compression that plays to the end.\<close>

definition cut_ticks :: "event list" where
  "cut_ticks = [LoadedMetadata, TimerFired, PlayFulfilled (playing 10), AnimationFrame (playing 15),
     AnimationFrame (playing 20)]"

definition cut_events :: "event list" where
  "cut_events = cut_ticks @ [DataAvailable (Blob [7] ''video/webm''), RecorderStopped]"

definition compress_events :: "event list" where
  "compress_events = [LoadedMetadata, PlayFulfilled (playing 0), AnimationFrame (playing 30),
     Ended, TimerFired, DataAvailable (Blob [8, 9] ''video/webm''), RecorderStopped]"

text \<open>An extraction whose range runs backwards, one whose range ends after the end of the
  source, and one whose \<^verbatim>\<open>play()\<close> is refused; a platform that accepts the default WebM
  encoder only, and one that accepts none.\<close>

definition backwards_events :: "event list" where
  "backwards_events = [LoadedMetadata, TimerFired, PlayFulfilled (playing 20),
     DataAvailable (Blob [7] ''video/webm''), RecorderStopped]"

definition overlong_events :: "event list" where
  "overlong_events = [LoadedMetadata, TimerFired, PlayFulfilled (playing 50), AnimationFrame (playing 55),
     AnimationFrame \<lparr>paused = False, ended = True, currentTime = 60\<rparr>,
     DataAvailable (Blob [7] ''video/webm''), RecorderStopped]"

definition refused_events :: "event list" where
  "refused_events = [LoadedMetadata, TimerFired, PlayRejected (DOMException ''NotAllowedError'')]"

definition webm_only_env :: environment where
  "webm_only_env = sample_env\<lparr>supported := (\<lambda>m. m = ''video/webm'')\<rparr>"

definition no_codec_env :: environment where
  "no_codec_env = sample_env\<lparr>supported := (\<lambda>m. False)\<rparr>"

text \<open>A source of 640 by 480.\<close>

definition sd_env :: environment where
  "sd_env = sample_env\<lparr>videoWidth := 640, videoHeight := 480\<rparr>"

text \<open>A compression whose \<^verbatim>\<open>ended\<close> event is raised twice, and a recorder that emits a
  chunk, an empty chunk and another chunk.\<close>

definition twice_ended :: "event list" where
  "twice_ended = [LoadedMetadata, PlayFulfilled (playing 0), AnimationFrame (playing 30),
     Ended, TimerFired, Ended, TimerFired]"

definition emission :: "event list" where
  "emission = [DataAvailable (Blob [7] ''video/webm''), DataAvailable (Blob [] ''video/webm''),
     DataAvailable (Blob [8, 9] ''video/webm'')]"

section \<open>Basic facts\<close>

declare js_div.simps [simp del] js_mul.simps [simp del] js_round.simps [simp del]
  js_min.simps [simp del] to_unsigned_long.simps [simp del]

lemmas js_simps = js_div.simps js_mul.simps js_round.simps js_min.simps to_unsigned_long.simps

lemma floor_rat_numeral_div [simp]:
  "\<lfloor>numeral a / numeral b :: rat\<rfloor> = numeral a div numeral b"
  using floor_divide_of_int_eq [of "numeral a" "numeral b", where ?'a = rat] by simp

lemma floor_rat_neg_numeral_div [simp]:
  "\<lfloor>- (numeral a / numeral b) :: rat\<rfloor> = - numeral a div numeral b"
  using floor_divide_of_int_eq [of "- numeral a" "numeral b", where ?'a = rat] by simp

lemma floor_rat_one_div [simp]: "\<lfloor>1 / numeral b :: rat\<rfloor> = 1 div numeral b"
  using floor_divide_of_int_eq [of 1 "numeral b", where ?'a = rat] by simp

lemmas prims = act_def onProgress_def resolve_def reject_def requestAnimationFrame_def
  setTimeout_def video_play_def createCanvas_def newRecorder_def recorder_start_def recorder_stop_def

lemma progress_of_append [simp]: "progress_of (xs @ ys) = progress_of xs @ progress_of ys"
  by (simp add: progress_of_def)

lemma progress_of_Nil [simp]: "progress_of [] = []"
  by (simp add: progress_of_def)

lemma progress_of_Cons [simp]:
  "progress_of (a # as) = (case a of Progress p \<Rightarrow> [p] | _ \<Rightarrow> []) @ progress_of as"
  by (simp add: progress_of_def)

lemma compress_run_Nil [simp]: "compress_run env file [] = compressVideo env file"
  by (simp add: compress_run_def)

lemma compress_run_snoc [simp]:
  "compress_run env file (evs @ [e]) = compress_fire env e (compress_run env file evs)"
  by (simp add: compress_run_def)

lemma cut_run_Nil [simp]: "cut_run env file st en [] = cutVideo env file st en"
  by (simp add: cut_run_def)

lemma cut_run_snoc [simp]:
  "cut_run env file st en (evs @ [e]) = cut_fire env st en e (cut_run env file st en evs)"
  by (simp add: cut_run_def)

lemma compressVideo_small:
  "blob_size file < 20 * 1024 * 1024 \<Longrightarrow> compressVideo env file = fast_path file"
  by (simp add: compressVideo_def fast_path_def prims init_def)

lemma compress_fire_fast_path: "compress_fire env e (fast_path file) = fast_path file"
  by (cases e) (simp_all add: fast_path_def init_def)

section \<open>What each handler does, in one update\<close>

lemma video_onerror_eq:
  "video_onerror s = s\<lparr>trace := trace s @ [RevokeObjectURL, Reject (Error ''Video load failed'')],
     outcome := (if outcome s = Pending then Rejected (Error ''Video load failed'') else outcome s)\<rparr>"
  by (simp add: video_onerror_def prims)

lemma onstop_eq:
  "onstop s = s\<lparr>trace := trace s @ [CreateBlob (new_blob (chunks s) ''video/webm''), RevokeObjectURL,
       Resolve (new_blob (chunks s) ''video/webm'')],
     outcome := (if outcome s = Pending then Resolved (new_blob (chunks s) ''video/webm'') else outcome s)\<rparr>"
  by (simp add: onstop_def prims Let_def)

lemma compress_drawFrame_eq:
  "compress_drawFrame env v s =
     (if paused v \<or> ended v then s
      else s\<lparr>trace := trace s @ [DrawImage (currentTime v) (width s) (height s),
          Progress (js_min (Num 99) (js_round (js_mul (js_div (Num (currentTime v)) (duration env)) (Num 100)))),
          RequestAnimationFrame],
        raf := Suc (raf s)\<rparr>)"
  by (simp add: compress_drawFrame_def prims)

lemma compress_onloadedmetadata_eq:
  "compress_onloadedmetadata env s =
     (if \<not> context2d env
      then s\<lparr>trace := trace s @ [CreateCanvas (to_unsigned_long (compress_width env)) 360,
               RevokeObjectURL, Reject (Error ''Canvas context failed'')],
             canvas := Some (to_unsigned_long (compress_width env), 360),
             width := compress_width env, height := Num 360,
             outcome := (if outcome s = Pending then Rejected (Error ''Canvas context failed'') else outcome s)\<rparr>
      else if \<not> supported env ''video/webm;codecs=vp8''
      then s\<lparr>trace := trace s @ [CreateCanvas (to_unsigned_long (compress_width env)) 360,
               CaptureStream 15, Uncaught (DOMException ''NotSupportedError'')],
             canvas := Some (to_unsigned_long (compress_width env), 360),
             width := compress_width env, height := Num 360\<rparr>
      else s\<lparr>trace := trace s @ [CreateCanvas (to_unsigned_long (compress_width env)) 360,
               CaptureStream 15, NewRecorder ''video/webm;codecs=vp8'' 600000, RecorderStart,
               SetPlaybackRate 2, Play],
             canvas := Some (to_unsigned_long (compress_width env), 360),
             width := compress_width env, height := Num 360,
             recorder := Some Recording, chunks := [], play_pending := True, onended := True\<rparr>)"
  by (simp add: compress_onloadedmetadata_def compress_width_def prims Let_def to_unsigned_long.simps)

lemma compress_play_catch_eq:
  "compress_play_catch e s = s\<lparr>trace := trace s @ [ConsoleError e, Reject e],
     outcome := (if outcome s = Pending then Rejected e else outcome s)\<rparr>"
  by (simp add: compress_play_catch_def prims)

lemma compress_onended_eq:
  "compress_onended s = s\<lparr>trace := trace s @ [SetTimeout 100], timers := Suc (timers s)\<rparr>"
  by (simp add: compress_onended_def prims)

lemma compress_timeout_eq:
  "compress_timeout s =
     s\<lparr>trace := trace s @ [RecorderStop, Progress (Num 100)],
       recorder := (if recorder s = Some Recording \<or> recorder s = Some Paused then Some Inactive else recorder s),
       stop_pending := (recorder s = Some Recording \<or> recorder s = Some Paused \<or> stop_pending s)\<rparr>"
  by (simp add: compress_timeout_def prims Let_def)

lemma cut_drawFrame_eq:
  "cut_drawFrame st en v s =
     (if paused v \<or> ended v \<or> en \<le> currentTime v
      then (if recorder s = Some Recording
            then s\<lparr>trace := trace s @ [RecorderStop, Progress (Num 100), Pause],
                   recorder := Some Inactive, stop_pending := True\<rparr>
            else s\<lparr>trace := trace s @ [Pause]\<rparr>)
      else s\<lparr>trace := trace s @ [DrawImage (currentTime v) (width s) (height s),
          Progress (js_min (Num 99) (js_round (js_mul (js_div (Num (currentTime v - st)) (Num (en - st))) (Num 100)))),
          RequestAnimationFrame],
        raf := Suc (raf s)\<rparr>)"
  by (simp add: cut_drawFrame_def prims Let_def)

lemma cut_timeout_eq:
  "cut_timeout s = s\<lparr>trace := trace s @ [RecorderStart, SetPlaybackRate 1, Play],
     recorder := Some Recording, play_pending := True\<rparr>"
  by (simp add: cut_timeout_def prims)

lemma startProcessing_eq:
  "startProcessing env st s =
     (let W = to_unsigned_long (cut_width env); H = to_unsigned_long (cut_height env)
      in if \<not> context2d env
      then (s\<lparr>trace := trace s @ [CreateCanvas W H, RevokeObjectURL, Reject (Error ''Canvas context failed'')],
              canvas := Some (W, H), width := cut_width env, height := cut_height env,
              outcome := (if outcome s = Pending then Rejected (Error ''Canvas context failed'') else outcome s)\<rparr>,
            None)
      else if supported env ''video/webm;codecs=vp9''
      then (s\<lparr>trace := trace s @ [CreateCanvas W H, CaptureStream 30,
                NewRecorder ''video/webm;codecs=vp9'' 2500000, SetCurrentTime st, SetTimeout 200],
              canvas := Some (W, H), width := cut_width env, height := cut_height env,
              recorder := Some Inactive, chunks := [], timers := Suc (timers s)\<rparr>, None)
      else if supported env ''video/webm''
      then (s\<lparr>trace := trace s @ [CreateCanvas W H, CaptureStream 30,
                NewRecorder ''video/webm'' 2500000, SetCurrentTime st, SetTimeout 200],
              canvas := Some (W, H), width := cut_width env, height := cut_height env,
              recorder := Some Inactive, chunks := [], timers := Suc (timers s)\<rparr>, None)
      else (s\<lparr>trace := trace s @ [CreateCanvas W H, CaptureStream 30],
              canvas := Some (W, H), width := cut_width env, height := cut_height env\<rparr>,
            Some (DOMException ''NotSupportedError'')))"
  by (simp add: startProcessing_def cut_width_def cut_height_def prims Let_def)

lemma cutVideo_eq:
  "cutVideo env file st en =
     (if readyState env \<ge> 1
      then (case startProcessing env st (cut_called st) of
              (s', None) \<Rightarrow> s' | (s', Some e) \<Rightarrow> reject e s')
      else (cut_called st)\<lparr>onloadedmetadata := True\<rparr>)"
  by (simp add: cutVideo_def cut_called_def prims init_def Let_def)

lemmas summaries = video_onerror_eq onstop_eq ondataavailable_def compress_drawFrame_eq
  compress_onloadedmetadata_eq compress_play_catch_eq compress_onended_eq compress_timeout_eq
  cut_drawFrame_eq cut_timeout_eq startProcessing_eq

section \<open>Lists of actions and of events\<close>

lemmas phases = awaiting_def armed_def starting_def ticking_def idle_def settled_def untouched_def

lemma frames_of_simps [simp]:
  "frames_of [] = []"
  "frames_of (a # as) = (case a of DrawImage t w h \<Rightarrow> [t] | _ \<Rightarrow> []) @ frames_of as"
  "frames_of (xs @ ys) = frames_of xs @ frames_of ys"
  by (simp_all add: frames_of_def)

lemma frame_sizes_of_simps [simp]:
  "frame_sizes_of [] = []"
  "frame_sizes_of (a # as) = (case a of DrawImage t w h \<Rightarrow> [(w, h)] | _ \<Rightarrow> []) @ frame_sizes_of as"
  "frame_sizes_of (xs @ ys) = frame_sizes_of xs @ frame_sizes_of ys"
  by (simp_all add: frame_sizes_of_def)

lemma canvases_of_simps [simp]:
  "canvases_of [] = []"
  "canvases_of (a # as) = (case a of CreateCanvas w h \<Rightarrow> [(w, h)] | _ \<Rightarrow> []) @ canvases_of as"
  "canvases_of (xs @ ys) = canvases_of xs @ canvases_of ys"
  by (simp_all add: canvases_of_def)

lemma blobs_of_simps [simp]:
  "blobs_of [] = []"
  "blobs_of (a # as) = (case a of CreateBlob b \<Rightarrow> [b] | _ \<Rightarrow> []) @ blobs_of as"
  "blobs_of (xs @ ys) = blobs_of xs @ blobs_of ys"
  by (simp_all add: blobs_of_def)

lemma tick_times_simps [simp]:
  "tick_times [] = []"
  "tick_times (e # es) = (case e of PlayFulfilled v \<Rightarrow> [currentTime v]
      | AnimationFrame v \<Rightarrow> [currentTime v] | _ \<Rightarrow> []) @ tick_times es"
  "tick_times (xs @ ys) = tick_times xs @ tick_times ys"
  by (simp_all add: tick_times_def)

lemma emitted_simps [simp]:
  "emitted [] = []"
  "emitted (e # es) = (case e of DataAvailable d \<Rightarrow> [d] | _ \<Rightarrow> []) @ emitted es"
  "emitted (xs @ ys) = emitted xs @ emitted ys"
  by (simp_all add: emitted_def)

lemma precedes_append [simp]:
  "precedes a P (xs @ ys) \<longleftrightarrow> precedes a P xs \<and> (a \<in> set xs \<or> precedes a P ys)"
  by (induction xs) auto


lemma each_after_append [simp]:
  "each_after a P prev (xs @ ys) \<longleftrightarrow>
     each_after a P prev xs \<and> each_after a P (if xs = [] then prev else Some (last xs)) ys"
  by (induction xs arbitrary: prev) auto


section \<open>Invariants of an extraction\<close>

lemma cut_inv_cutVideo: "cut_inv (cutVideo env file st en)"
  apply (simp add: cutVideo_eq startProcessing_eq cut_called_def reject_def act_def init_def Let_def)
  apply (simp add: cut_inv_def phases)
  done

lemma cut_fire_awaiting: "awaiting s \<Longrightarrow> cut_inv (cut_fire env st en e s)"
  unfolding awaiting_def untouched_def
  by (cases e; simp add: summaries act_def reject_def Let_def cong: conj_cong; simp add: cut_inv_def phases)

lemma cut_fire_armed: "armed s \<Longrightarrow> cut_inv (cut_fire env st en e s)"
  unfolding armed_def untouched_def settled_def
  by (cases e; simp add: summaries act_def reject_def Let_def cong: conj_cong; simp add: cut_inv_def phases)

lemma cut_fire_starting: "starting s \<Longrightarrow> cut_inv (cut_fire env st en e s)"
  unfolding starting_def untouched_def settled_def
  by (cases e; simp add: summaries act_def reject_def Let_def cong: conj_cong; simp add: cut_inv_def phases)

lemma cut_fire_ticking: "ticking s \<Longrightarrow> cut_inv (cut_fire env st en e s)"
  unfolding ticking_def untouched_def settled_def
  by (cases e; simp add: summaries act_def reject_def Let_def cong: conj_cong; simp add: cut_inv_def phases)

lemma cut_fire_idle: "idle s \<Longrightarrow> idle (cut_fire env st en e s)"
  unfolding idle_def settled_def
  by (cases e; simp add: summaries act_def reject_def Let_def cong: conj_cong)

lemma cut_inv_fire:
  assumes "cut_inv s"
  shows "cut_inv (cut_fire env st en e s)"
proof -
  from assms consider "awaiting s" | "armed s" | "starting s" | "ticking s" | "idle s"
    unfolding cut_inv_def by blast
  then show ?thesis
  proof cases
    case 1 then show ?thesis by (rule cut_fire_awaiting)
  next
    case 2 then show ?thesis by (rule cut_fire_armed)
  next
    case 3 then show ?thesis by (rule cut_fire_starting)
  next
    case 4 then show ?thesis by (rule cut_fire_ticking)
  next
    case 5 then show ?thesis by (simp add: cut_inv_def cut_fire_idle)
  qed
qed

lemma cut_inv_run: "cut_inv (cut_run env file st en evs)"
  by (induction evs rule: rev_induct) (simp_all add: cut_inv_cutVideo cut_inv_fire)

lemma cut_frames_cutVideo: "frames_of (trace (cutVideo env file st en)) = []"
  by (simp add: cutVideo_eq startProcessing_eq cut_called_def reject_def act_def init_def Let_def)

lemma cut_frames_fire:
  "\<forall>t\<in>set (frames_of (trace s)). t < en \<Longrightarrow>
   \<forall>t\<in>set (frames_of (trace (cut_fire env st en e s))). t < en"
  by (cases e; simp add: summaries act_def reject_def Let_def; auto)

lemma cut_frames_run: "\<forall>t\<in>set (frames_of (trace (cut_run env file st en evs))). t < en"
  by (induction evs rule: rev_induct) (simp_all add: cut_frames_cutVideo cut_frames_fire)

lemma cut_budget_cutVideo: "cut_budget (cutVideo env file st en) \<le> 1"
  apply (simp add: cutVideo_eq startProcessing_eq cut_called_def reject_def act_def init_def Let_def)
  apply (simp add: cut_budget_def)
  done

lemma cut_budget_fire: "cut_budget (cut_fire env st en e s) \<le> cut_budget s"
  by (cases e; simp add: summaries act_def reject_def Let_def; simp add: cut_budget_def; auto)

lemma cut_budget_run: "cut_budget (cut_run env file st en evs) \<le> 1"
proof (induction evs rule: rev_induct)
  case Nil
  show ?case using cut_budget_cutVideo [of env _ st en] by simp
next
  case (snoc e evs)
  have "cut_budget (cut_run env file st en (evs @ [e])) \<le> cut_budget (cut_run env file st en evs)"
    by (simp add: cut_budget_fire)
  with snoc show ?case by linarith
qed


lemma js_min_99_neq_100 [simp]: "js_min (Num 99) x \<noteq> Num 100"
  by (cases x) (simp_all add: js_simps min_def)


















section \<open>Invariants of a compression\<close>



lemma compressVideo_eq:
  "compressVideo env f =
     (if blob_size f < 20 * 1024 * 1024 then fast_path f
      else init\<lparr>trace := [CreateVideo, CreateObjectURL], onerror := True, onloadedmetadata := True\<rparr>)"
  by (simp add: compressVideo_def fast_path_def prims init_def)










lemmas eval = cut_run_def compress_run_def cutVideo_eq compressVideo_eq cut_called_def fast_path_def
  init_def summaries act_def reject_def Let_def sample_env_def playing_def small_file_def big_file_def
  blob_size_def new_blob_def js_simps cut_width_def cut_height_def compress_width_def
  cut_ticks_def cut_events_def compress_events_def backwards_events_def overlong_events_def
  refused_events_def webm_only_env_def no_codec_env_def sd_env_def twice_ended_def emission_def

section \<open>The fast path of compression\<close>

text \<open>
  Claim C3. A file below the size threshold is given back as it is: whatever events
  follow the call, the run is the state in which the progress callback was called once,
  with 100, and the promise was resolved with the file itself; no video element, URL,
  canvas or recorder was ever created (the trace holds nothing else).
\<close>

theorem compress_small_file:
  assumes "blob_size file < 20 * 1024 * 1024"
  shows "compress_run env file evs =
           init\<lparr>trace := [Progress (Num 100), Resolve file], outcome := Resolved file\<rparr>
         \<and> outcome (compress_run env file evs) = Resolved file
         \<and> progress_of (trace (compress_run env file evs)) = [Num 100]"
proof -
  have "compress_run env file evs = fast_path file"
  proof (induction evs rule: rev_induct)
    case Nil
    show ?case using assms by (simp add: compressVideo_small)
  next
    case (snoc e evs)
    then show ?case by (simp add: compress_fire_fast_path)
  qed
  then show ?thesis by (simp add: fast_path_def)
qed

theorem compress_small_file_witness:
  "blob_size (Blob [1, 2, 3] ''video/mp4'') < 20 * 1024 * 1024
   \<and> outcome (compress_run sample_env (Blob [1, 2, 3] ''video/mp4'')
         [LoadedMetadata, Ended, TimerFired]) = Resolved (Blob [1, 2, 3] ''video/mp4'')
   \<and> progress_of (trace (compress_run sample_env (Blob [1, 2, 3] ''video/mp4'')
         [LoadedMetadata, Ended, TimerFired])) = [Num 100]"
proof -
  have small: "blob_size (Blob [1, 2, 3] ''video/mp4'') < 20 * 1024 * 1024"
    by (simp add: blob_size_def)
  show ?thesis using small compress_small_file [OF small] by simp
qed

text \<open>
  Claim C10. The threshold is \<open>20 \<times> 1024 \<times> 1024 = 20971520\<close> bytes and the comparison is
  strict: below it the call resolves with the file; at it or above, the call creates the
  video element and the object URL, registers its handlers and leaves the promise pending.
\<close>

theorem compress_threshold:
  "20 * 1024 * 1024 = (20971520 :: nat)
   \<and> (blob_size file < 20971520 \<longrightarrow>
        compressVideo env file = init\<lparr>trace := [Progress (Num 100), Resolve file], outcome := Resolved file\<rparr>)
   \<and> (20971520 \<le> blob_size file \<longrightarrow>
        compressVideo env file = init\<lparr>trace := [CreateVideo, CreateObjectURL], onerror := True, onloadedmetadata := True\<rparr>)"
  by (simp add: compressVideo_def prims init_def)

theorem compress_threshold_witness:
  "blob_size (Blob (replicate 20971519 0) ''video/mp4'') < 20971520
   \<and> outcome (compressVideo sample_env (Blob (replicate 20971519 0) ''video/mp4'')) =
       Resolved (Blob (replicate 20971519 0) ''video/mp4'')
   \<and> 20971520 \<le> blob_size (Blob (replicate 20971520 0) ''video/mp4'')
   \<and> outcome (compressVideo sample_env (Blob (replicate 20971520 0) ''video/mp4'')) = Pending
   \<and> trace (compressVideo sample_env (Blob (replicate 20971520 0) ''video/mp4'')) =
       [CreateVideo, CreateObjectURL]"
proof -
  have lo: "blob_size (Blob (replicate 20971519 0) ''video/mp4'') < 20971520"
    by (simp add: blob_size_def)
  have hi: "20971520 \<le> blob_size (Blob (replicate 20971520 0) ''video/mp4'')"
    by (simp add: blob_size_def)
  show ?thesis
    using lo hi compress_threshold [of "Blob (replicate 20971519 0) ''video/mp4''" sample_env]
      compress_threshold [of "Blob (replicate 20971520 0) ''video/mp4''" sample_env]
    by (simp add: init_def)
qed

section \<open>Progress reports\<close>








section \<open>The range of an extraction is not checked\<close>

lemma cut_trace_cutVideo:
  "\<exists>rest. trace (cutVideo env f st en) = CreateVideo # CreateObjectURL # SetCurrentTime st # rest"
  by (simp add: cutVideo_eq startProcessing_eq cut_called_def reject_def act_def init_def Let_def)

lemma cut_trace_fire: "\<exists>ys. trace (cut_fire env st en e s) = trace s @ ys"
  by (cases e; simp add: summaries act_def reject_def Let_def)

lemma cut_trace_run:
  "\<exists>rest. trace (cut_run env f st en evs) = CreateVideo # CreateObjectURL # SetCurrentTime st # rest"
proof (induction evs rule: rev_induct)
  case Nil
  show ?case by (simp add: cut_trace_cutVideo)
next
  case (snoc e evs)
  then obtain rest where "trace (cut_run env f st en evs) =
      CreateVideo # CreateObjectURL # SetCurrentTime st # rest" by blast
  moreover obtain ys where "trace (cut_fire env st en e (cut_run env f st en evs)) =
      trace (cut_run env f st en evs) @ ys" using cut_trace_fire by blast
  ultimately show ?case by simp
qed

lemma cut_reject_cutVideo:
  "outcome (cutVideo env f st en) = Rejected x \<Longrightarrow>
     x = Error ''Canvas context failed'' \<or> x = DOMException ''NotSupportedError''"
  by (simp add: cutVideo_eq startProcessing_eq cut_called_def reject_def act_def init_def Let_def
      split: if_splits)

lemma cut_reject_fire:
  "outcome (cut_fire env st en e s) = Rejected x \<Longrightarrow>
     outcome s = Rejected x \<or> x = Error ''Video load failed'' \<or> x = Error ''Canvas context failed''
     \<or> e = PlayRejected x"
  by (cases e; simp add: summaries act_def reject_def Let_def split: if_splits)

lemma cut_reject_run:
  "outcome (cut_run env f st en evs) = Rejected x \<Longrightarrow>
     x = Error ''Video load failed'' \<or> x = Error ''Canvas context failed''
     \<or> x = DOMException ''NotSupportedError'' \<or> PlayRejected x \<in> set evs"
proof (induction evs rule: rev_induct)
  case Nil
  then show ?case using cut_reject_cutVideo [of env f st en x] by auto
next
  case (snoc e evs)
  from snoc.prems have "outcome (cut_fire env st en e (cut_run env f st en evs)) = Rejected x"
    by simp
  from cut_reject_fire [OF this] snoc.IH show ?case by auto
qed

text \<open>
  Claim C2, as the code has it. \<^verbatim>\<open>cutVideo\<close> does not look at its range: whatever
  \<open>startTime\<close> and \<open>endTime\<close> are, the call begins by creating the video element and the
  object URL and by seeking to \<open>startTime\<close>, and when the promise is rejected the reason is
  the load error, the missing canvas context, the exception of the encoder's constructor,
  or the reason for which \<^verbatim>\<open>play()\<close> was refused; none of them is about the range.
  \<open>0 \<le> startTime < endTime \<le> duration\<close> is left to the caller.
\<close>

theorem cut_no_range_check:
  "(\<exists>rest. trace (cut_run env f st en evs) = CreateVideo # CreateObjectURL # SetCurrentTime st # rest)
   \<and> (\<forall>x. outcome (cut_run env f st en evs) = Rejected x \<longrightarrow>
         x = Error ''Video load failed'' \<or> x = Error ''Canvas context failed''
         \<or> x = DOMException ''NotSupportedError'' \<or> PlayRejected x \<in> set evs)"
  using cut_trace_run [of env f st en evs] cut_reject_run [of env f st en evs] by blast

theorem cut_no_range_check_witness:
  "outcome (cut_run sample_env small_file 20 10 refused_events) = Rejected (DOMException ''NotAllowedError'')
   \<and> PlayRejected (DOMException ''NotAllowedError'') \<in> set refused_events
   \<and> take 3 (trace (cut_run sample_env small_file 20 10 refused_events)) =
       [CreateVideo, CreateObjectURL, SetCurrentTime 20]"
proof -
  have o: "outcome (cut_run sample_env small_file 20 10 refused_events) =
      Rejected (DOMException ''NotAllowedError'')"
    by (simp add: eval)
  from cut_no_range_check [where env = sample_env and f = small_file and st = "20" and en = "10"
      and evs = refused_events] o
  have "PlayRejected (DOMException ''NotAllowedError'') \<in> set refused_events"
    and "\<exists>rest. trace (cut_run sample_env small_file 20 10 refused_events) =
      CreateVideo # CreateObjectURL # SetCurrentTime 20 # rest"
    by auto
  then show ?thesis using o by auto
qed

text \<open>
  The claim as it was stated has such a call fail before anything is allocated. With the
  range from 20 to 10, and with the range from 50 to 70 on a source of 60 seconds, the
  call creates the element and the URL and leaves the promise pending, and the run ends
  with the promise resolved.
\<close>

theorem cut_invalid_range_resolves:
  "take 2 (trace (cutVideo sample_env small_file 20 10)) = [CreateVideo, CreateObjectURL]
   \<and> outcome (cutVideo sample_env small_file 20 10) = Pending
   \<and> outcome (cut_run sample_env small_file 20 10 backwards_events) = Resolved (Blob [7] ''video/webm'')
   \<and> duration sample_env = Num 60
   \<and> take 2 (trace (cutVideo sample_env small_file 50 70)) = [CreateVideo, CreateObjectURL]
   \<and> outcome (cutVideo sample_env small_file 50 70) = Pending
   \<and> outcome (cut_run sample_env small_file 50 70 overlong_events) = Resolved (Blob [7] ''video/webm'')"
  by (simp add: eval)


section \<open>A refused play() leaves the URL and the recorder behind\<close>

text \<open>
  Claim C4. When \<^verbatim>\<open>play()\<close> is refused the promise is rejected with the reason, in both
  operations; but the object URL is not revoked and the recorder, started before
  \<^verbatim>\<open>play()\<close> was called, is left recording. The handler of the load error, in the same
  two functions, does revoke the URL.
\<close>

theorem play_refused_leaks:
  "outcome (compress_run sample_env big_file [LoadedMetadata, PlayRejected (DOMException ''NotAllowedError'')])
     = Rejected (DOMException ''NotAllowedError'')
   \<and> RevokeObjectURL \<notin> set (trace (compress_run sample_env big_file
         [LoadedMetadata, PlayRejected (DOMException ''NotAllowedError'')]))
   \<and> recorder (compress_run sample_env big_file
         [LoadedMetadata, PlayRejected (DOMException ''NotAllowedError'')]) = Some Recording
   \<and> outcome (cut_run sample_env small_file 10 20 refused_events) = Rejected (DOMException ''NotAllowedError'')
   \<and> RevokeObjectURL \<notin> set (trace (cut_run sample_env small_file 10 20 refused_events))
   \<and> recorder (cut_run sample_env small_file 10 20 refused_events) = Some Recording
   \<and> RevokeObjectURL \<in> set (trace (compress_run sample_env big_file [VideoError]))
   \<and> RevokeObjectURL \<in> set (trace (cut_run sample_env small_file 10 20 [VideoError]))"
  by (simp add: eval)


section \<open>Codec fallback\<close>

lemma cut_codec_cutVideo:
  "\<forall>m b. NewRecorder m b \<in> set (trace (cutVideo env f st en)) \<longrightarrow>
     (m = ''video/webm;codecs=vp9'' \<and> supported env m)
     \<or> (m = ''video/webm'' \<and> \<not> supported env ''video/webm;codecs=vp9'' \<and> supported env m)"
  by (simp add: cutVideo_eq startProcessing_eq cut_called_def reject_def act_def init_def Let_def)

lemma cut_codec_fire:
  "\<forall>m b. NewRecorder m b \<in> set (trace s) \<longrightarrow>
     (m = ''video/webm;codecs=vp9'' \<and> supported env m)
     \<or> (m = ''video/webm'' \<and> \<not> supported env ''video/webm;codecs=vp9'' \<and> supported env m) \<Longrightarrow>
   \<forall>m b. NewRecorder m b \<in> set (trace (cut_fire env st en e s)) \<longrightarrow>
     (m = ''video/webm;codecs=vp9'' \<and> supported env m)
     \<or> (m = ''video/webm'' \<and> \<not> supported env ''video/webm;codecs=vp9'' \<and> supported env m)"
  by (cases e; simp add: summaries act_def reject_def Let_def; blast)

lemma cut_codec_run:
  "\<forall>m b. NewRecorder m b \<in> set (trace (cut_run env f st en evs)) \<longrightarrow>
     (m = ''video/webm;codecs=vp9'' \<and> supported env m)
     \<or> (m = ''video/webm'' \<and> \<not> supported env ''video/webm;codecs=vp9'' \<and> supported env m)"
proof (induction evs rule: rev_induct)
  case Nil
  show ?case using cut_codec_cutVideo [of env f st en] by simp
next
  case (snoc e evs)
  show ?case using cut_codec_fire [OF snoc, of st en e] by simp
qed

lemma compress_codec_fire:
  "\<forall>m b. NewRecorder m b \<in> set (trace s) \<longrightarrow> m = ''video/webm;codecs=vp8'' \<and> supported env m \<Longrightarrow>
   \<forall>m b. NewRecorder m b \<in> set (trace (compress_fire env e s)) \<longrightarrow>
     m = ''video/webm;codecs=vp8'' \<and> supported env m"
  by (cases e; simp add: summaries act_def reject_def Let_def; blast)

lemma compress_codec_run:
  "\<forall>m b. NewRecorder m b \<in> set (trace (compress_run env g evs)) \<longrightarrow>
     m = ''video/webm;codecs=vp8'' \<and> supported env m"
proof (induction evs rule: rev_induct)
  case Nil
  show ?case by (simp add: compressVideo_eq fast_path_def init_def)
next
  case (snoc e evs)
  show ?case using compress_codec_fire [OF snoc, of e] by simp
qed

lemma relabel_vp9 [simp]:
  "relabel (NewRecorder ''video/webm;codecs=vp9'' 2500000) = NewRecorder ''video/webm'' 2500000"
  by (simp add: relabel_def)

lemma relabel_other: "a \<noteq> NewRecorder ''video/webm;codecs=vp9'' 2500000 \<Longrightarrow> relabel a = a"
  by (simp add: relabel_def)

lemma with_vp9_simps [simp]:
  "context2d (with_vp9 env) = context2d env"
  "readyState (with_vp9 env) = readyState env"
  "cut_width (with_vp9 env) = cut_width env"
  "cut_height (with_vp9 env) = cut_height env"
  "supported (with_vp9 env) ''video/webm;codecs=vp9''"
  by (simp_all add: with_vp9_def cut_width_def cut_height_def)

lemma fallback_cutVideo:
  "\<not> supported env ''video/webm;codecs=vp9'' \<Longrightarrow> supported env ''video/webm'' \<Longrightarrow>
   cutVideo env f st en = relabelled (cutVideo (with_vp9 env) f st en)"
  by (simp add: cutVideo_eq startProcessing_eq cut_called_def reject_def act_def init_def Let_def
      relabelled_def relabel_other)

lemma fallback_fire:
  "\<not> supported env ''video/webm;codecs=vp9'' \<Longrightarrow> supported env ''video/webm'' \<Longrightarrow>
   cut_fire env st en e (relabelled s) = relabelled (cut_fire (with_vp9 env) st en e s)"
  by (cases e; simp add: summaries act_def reject_def Let_def relabelled_def relabel_other)

lemma fallback_run:
  assumes "\<not> supported env ''video/webm;codecs=vp9''" and "supported env ''video/webm''"
  shows "cut_run env f st en evs = relabelled (cut_run (with_vp9 env) f st en evs)"
proof (induction evs rule: rev_induct)
  case Nil
  show ?case using assms by (simp add: fallback_cutVideo)
next
  case (snoc e evs)
  then show ?case using assms by (simp add: fallback_fire)
qed

lemma progress_of_relabel [simp]: "progress_of (map relabel as) = progress_of as"
  by (induction as) (simp_all add: relabel_def)

lemma fallback_completes:
  assumes "context2d env" and "readyState env = 0"
    and "\<not> supported env ''video/webm;codecs=vp9''" and "supported env ''video/webm''"
    and "paused v \<or> ended v \<or> en \<le> currentTime v"
  shows "outcome (cut_run env f st en
           [LoadedMetadata, TimerFired, PlayFulfilled v, DataAvailable d, RecorderStopped]) =
         Resolved (new_blob (if blob_size d > 0 then [d] else []) ''video/webm'')"
  using assms
  by (simp add: cut_run_def cutVideo_eq cut_called_def init_def summaries act_def reject_def Let_def)

text \<open>
  Claim C5, as the code has it. In an extraction the recorder is constructed for VP9
  and, only when the platform refuses that, for the default WebM encoder. The run that
  fell back is the run of a platform that accepts VP9 with the name of the encoder
  replaced in the trace: same outcome, same progress reports; and the run whose first
  tick reads the end of the range resolves with the data the recorder emitted. A
  compression constructs its recorder for VP8 and for nothing else.
\<close>

theorem codec_fallback:
  "(\<forall>m b. NewRecorder m b \<in> set (trace (cut_run env f st en evs)) \<longrightarrow>
       (m = ''video/webm;codecs=vp9'' \<and> supported env m)
       \<or> (m = ''video/webm'' \<and> \<not> supported env ''video/webm;codecs=vp9'' \<and> supported env m))
   \<and> (\<not> supported env ''video/webm;codecs=vp9'' \<and> supported env ''video/webm'' \<longrightarrow>
        cut_run env f st en evs = relabelled (cut_run (with_vp9 env) f st en evs)
        \<and> outcome (cut_run env f st en evs) = outcome (cut_run (with_vp9 env) f st en evs)
        \<and> progress_of (trace (cut_run env f st en evs)) =
            progress_of (trace (cut_run (with_vp9 env) f st en evs)))
   \<and> (context2d env \<and> readyState env = 0
        \<and> \<not> supported env ''video/webm;codecs=vp9'' \<and> supported env ''video/webm''
        \<and> (paused v \<or> ended v \<or> en \<le> currentTime v) \<longrightarrow>
        outcome (cut_run env f st en
           [LoadedMetadata, TimerFired, PlayFulfilled v, DataAvailable d, RecorderStopped]) =
         Resolved (new_blob (if blob_size d > 0 then [d] else []) ''video/webm''))
   \<and> (\<forall>m b. NewRecorder m b \<in> set (trace (compress_run env g evs')) \<longrightarrow>
        m = ''video/webm;codecs=vp8'' \<and> supported env m)"
proof (intro conjI impI)
  show "\<forall>m b. NewRecorder m b \<in> set (trace (cut_run env f st en evs)) \<longrightarrow>
       (m = ''video/webm;codecs=vp9'' \<and> supported env m)
       \<or> (m = ''video/webm'' \<and> \<not> supported env ''video/webm;codecs=vp9'' \<and> supported env m)"
    by (rule cut_codec_run)
next
  assume h: "\<not> supported env ''video/webm;codecs=vp9'' \<and> supported env ''video/webm''"
  then have eq: "cut_run env f st en evs = relabelled (cut_run (with_vp9 env) f st en evs)"
    by (simp add: fallback_run)
  show "cut_run env f st en evs = relabelled (cut_run (with_vp9 env) f st en evs)" by (rule eq)
  show "outcome (cut_run env f st en evs) = outcome (cut_run (with_vp9 env) f st en evs)"
    by (subst eq) (simp add: relabelled_def)
  show "progress_of (trace (cut_run env f st en evs)) =
            progress_of (trace (cut_run (with_vp9 env) f st en evs))"
    by (subst eq) (simp add: relabelled_def)
next
  assume "context2d env \<and> readyState env = 0
        \<and> \<not> supported env ''video/webm;codecs=vp9'' \<and> supported env ''video/webm''
        \<and> (paused v \<or> ended v \<or> en \<le> currentTime v)"
  then show "outcome (cut_run env f st en
           [LoadedMetadata, TimerFired, PlayFulfilled v, DataAvailable d, RecorderStopped]) =
         Resolved (new_blob (if blob_size d > 0 then [d] else []) ''video/webm'')"
    by (simp add: fallback_completes)
next
  show "\<forall>m b. NewRecorder m b \<in> set (trace (compress_run env g evs')) \<longrightarrow>
        m = ''video/webm;codecs=vp8'' \<and> supported env m"
    by (rule compress_codec_run)
qed

theorem codec_fallback_witness:
  "context2d webm_only_env \<and> readyState webm_only_env = 0
   \<and> \<not> supported webm_only_env ''video/webm;codecs=vp9'' \<and> supported webm_only_env ''video/webm''
   \<and> NewRecorder ''video/webm'' 2500000 \<in> set (trace (cut_run webm_only_env small_file 10 20 cut_events))
   \<and> outcome (cut_run webm_only_env small_file 10 20 cut_events) =
       outcome (cut_run (with_vp9 webm_only_env) small_file 10 20 cut_events)
   \<and> progress_of (trace (cut_run webm_only_env small_file 10 20 cut_events)) =
       progress_of (trace (cut_run (with_vp9 webm_only_env) small_file 10 20 cut_events))
   \<and> outcome (cut_run webm_only_env small_file 10 20
        [LoadedMetadata, TimerFired, PlayFulfilled (playing 20), DataAvailable (Blob [7] ''video/webm''),
         RecorderStopped]) = Resolved (Blob [7] ''video/webm'')
   \<and> NewRecorder ''video/webm;codecs=vp8'' 600000 \<in> set (trace (compress_run sample_env big_file compress_events))
   \<and> supported sample_env ''video/webm;codecs=vp8''"
proof -
  have h: "context2d webm_only_env \<and> readyState webm_only_env = 0
      \<and> \<not> supported webm_only_env ''video/webm;codecs=vp9'' \<and> supported webm_only_env ''video/webm''
      \<and> (paused (playing 20) \<or> ended (playing 20) \<or> (20 :: rat) \<le> currentTime (playing 20))"
    by (simp add: webm_only_env_def sample_env_def playing_def)
  have n1: "NewRecorder ''video/webm'' 2500000
      \<in> set (trace (cut_run webm_only_env small_file 10 20 cut_events))"
    by (simp add: eval)
  have n2: "NewRecorder ''video/webm;codecs=vp8'' 600000
      \<in> set (trace (compress_run sample_env big_file compress_events))"
    by (simp add: eval)
  note inst = codec_fallback [where env = webm_only_env and f = small_file and st = "10" and en = "20"
      and evs = cut_events and v = "playing 20" and d = "Blob [7] ''video/webm''"]
  note inst' = codec_fallback [where env = sample_env and g = big_file and evs' = compress_events]
  from inst' n2 have "supported sample_env ''video/webm;codecs=vp8''" by blast
  moreover from inst h have "outcome (cut_run webm_only_env small_file 10 20 cut_events) =
       outcome (cut_run (with_vp9 webm_only_env) small_file 10 20 cut_events)"
    and "progress_of (trace (cut_run webm_only_env small_file 10 20 cut_events)) =
       progress_of (trace (cut_run (with_vp9 webm_only_env) small_file 10 20 cut_events))"
    and "outcome (cut_run webm_only_env small_file 10 20
        [LoadedMetadata, TimerFired, PlayFulfilled (playing 20), DataAvailable (Blob [7] ''video/webm''),
         RecorderStopped]) = Resolved (new_blob (if blob_size (Blob [7] ''video/webm'') > 0
           then [Blob [7] ''video/webm''] else []) ''video/webm'')"
    by blast+
  ultimately show ?thesis using h n1 n2 by (simp add: blob_size_def new_blob_def)
qed

text \<open>
  The claim as it was stated gives both operations a list of codecs and a rejection when
  the list is exhausted. On a platform that accepts the default WebM encoder but not VP8,
  the compression constructs no recorder, the exception leaves the handler of
  \<^verbatim>\<open>loadedmetadata\<close>, and the promise stays pending; on a platform that accepts no encoder
  the extraction ends the same way.
\<close>

theorem encoder_failure_not_handled:
  "supported webm_only_env ''video/webm''
   \<and> trace (compress_run webm_only_env big_file [LoadedMetadata]) =
       [CreateVideo, CreateObjectURL, CreateCanvas 640 360, CaptureStream 15,
        Uncaught (DOMException ''NotSupportedError'')]
   \<and> recorder (compress_run webm_only_env big_file [LoadedMetadata]) = None
   \<and> outcome (compress_run webm_only_env big_file
        [LoadedMetadata, PlayFulfilled (playing 0), Ended, TimerFired, RecorderStopped]) = Pending
   \<and> trace (cut_run no_codec_env small_file 10 20 [LoadedMetadata]) =
       [CreateVideo, CreateObjectURL, SetCurrentTime 10, CreateCanvas 1280 720, CaptureStream 30,
        Uncaught (DOMException ''NotSupportedError'')]
   \<and> outcome (cut_run no_codec_env small_file 10 20
        [LoadedMetadata, TimerFired, PlayFulfilled (playing 10), RecorderStopped]) = Pending"
  by (simp add: eval)

section \<open>The end of the tick loop\<close>

lemma quiet_actions_append [simp]:
  "quiet_actions (xs @ ys) \<longleftrightarrow> quiet_actions xs \<and> quiet_actions ys"
  by (auto simp: quiet_actions_def)

lemma quiet_actions_Cons:
  "quiet_actions (a # as) \<Longrightarrow> quiet_actions as"
  using quiet_actions_append [of "[a]" as] by simp

lemma calm_append:
  assumes "calm xs" and "Pause \<in> set xs \<or> Pause \<in> set ys \<Longrightarrow> quiet_actions ys"
  shows "calm (xs @ ys)"
  unfolding calm_def
proof (intro allI impI)
  fix pre post
  assume eq: "xs @ ys = pre @ Pause # post"
  then consider us where "xs = pre @ us" and "us @ ys = Pause # post"
    | us where "xs @ us = pre" and "ys = us @ Pause # post"
    by (auto simp: append_eq_append_conv2)
  then show "quiet_actions post"
  proof cases
    case 1
    show ?thesis
    proof (cases us)
      case Nil
      with 1 have "ys = Pause # post" by simp
      then have "quiet_actions ys" using assms(2) by simp
      then show ?thesis using \<open>ys = Pause # post\<close> by (auto dest: quiet_actions_Cons)
    next
      case (Cons u us')
      with 1 have xs: "xs = pre @ Pause # us'" and post: "post = us' @ ys" by simp_all
      from xs assms(1) have "quiet_actions us'" unfolding calm_def by blast
      moreover from xs have "quiet_actions ys" using assms(2) by simp
      ultimately show ?thesis using post by simp
    qed
  next
    case 2
    then have "quiet_actions ys" using assms(2) by simp
    with 2 show ?thesis by (auto dest: quiet_actions_Cons)
  qed
qed

lemma cut_calm_cutVideo: "calm (trace (cutVideo env f st en))"
proof -
  have "Pause \<notin> set (trace (cutVideo env f st en))"
    by (simp add: cutVideo_eq startProcessing_eq cut_called_def reject_def act_def init_def Let_def)
  then show ?thesis unfolding calm_def by auto
qed

lemma cut_step_untouched:
  assumes "awaiting s \<or> armed s \<or> starting s \<or> ticking s"
  shows "\<exists>ys. trace (cut_fire env st en e s) = trace s @ ys \<and> (Pause \<in> set ys \<longrightarrow> quiet_actions ys)"
  using assms unfolding awaiting_def armed_def starting_def ticking_def settled_def untouched_def
  by (cases e; simp add: summaries act_def reject_def Let_def quiet_actions_def cong: conj_cong)

lemma cut_step_idle:
  assumes "idle s"
  shows "\<exists>ys. trace (cut_fire env st en e s) = trace s @ ys \<and> quiet_actions ys"
  using assms unfolding idle_def settled_def
  by (cases e; simp add: summaries act_def reject_def Let_def quiet_actions_def cong: conj_cong)

lemma cut_calm_fire:
  assumes "cut_inv s" and "calm (trace s)"
  shows "calm (trace (cut_fire env st en e s))"
proof (cases "idle s")
  case True
  then obtain ys where "trace (cut_fire env st en e s) = trace s @ ys" and "quiet_actions ys"
    using cut_step_idle by blast
  then show ?thesis using assms(2) by (auto intro!: calm_append)
next
  case False
  with assms(1) have ph: "awaiting s \<or> armed s \<or> starting s \<or> ticking s"
    by (auto simp: cut_inv_def)
  then have "Pause \<notin> set (trace s)"
    by (auto simp: awaiting_def armed_def starting_def ticking_def untouched_def)
  moreover obtain ys where "trace (cut_fire env st en e s) = trace s @ ys"
    and "Pause \<in> set ys \<longrightarrow> quiet_actions ys"
    using cut_step_untouched [OF ph] by blast
  ultimately show ?thesis using assms(2) by (auto intro!: calm_append)
qed

lemma cut_calm_run: "calm (trace (cut_run env f st en evs))"
  by (induction evs rule: rev_induct) (simp_all add: cut_calm_cutVideo cut_calm_fire cut_inv_run)

lemma cut_enabled_recording:
  "cut_inv s \<Longrightarrow> play_pending s \<or> raf s > 0 \<Longrightarrow> recorder s = Some Recording"
  by (auto simp: cut_inv_def phases)

text \<open>
  Claim C6, as the code has it. A tick of the compression that finds the video paused or
  ended does nothing: it samples no frame and requests no tick. A tick of the extraction
  that finds the video paused or ended, or the clock at or after \<open>endTime\<close>, samples no
  frame, requests no tick and pauses the video; the recorder is recording whenever a tick
  is due, and that tick stops it and reports 100. So no frame of an extraction is sampled
  at or after \<open>endTime\<close>, and after the pause no frame is sampled and no tick requested.
\<close>

theorem tick_loop_stops:
  "(paused v \<or> ended v \<longrightarrow> compress_drawFrame env v s = s)
   \<and> (paused v \<or> ended v \<or> en \<le> currentTime v \<longrightarrow>
        raf (cut_drawFrame st en v s) = raf s
        \<and> frames_of (trace (cut_drawFrame st en v s)) = frames_of (trace s)
        \<and> last (trace (cut_drawFrame st en v s)) = Pause
        \<and> (recorder s = Some Recording \<longrightarrow>
             recorder (cut_drawFrame st en v s) = Some Inactive
             \<and> trace (cut_drawFrame st en v s) = trace s @ [RecorderStop, Progress (Num 100), Pause]))
   \<and> (play_pending (cut_run env f st en evs) \<or> raf (cut_run env f st en evs) > 0 \<longrightarrow>
        recorder (cut_run env f st en evs) = Some Recording)
   \<and> (\<forall>t\<in>set (frames_of (trace (cut_run env f st en evs))). t < en)
   \<and> (\<forall>pre post. trace (cut_run env f st en evs) = pre @ Pause # post \<longrightarrow>
        frames_of post = [] \<and> RequestAnimationFrame \<notin> set post)"
proof (intro conjI impI)
  assume "paused v \<or> ended v"
  then show "compress_drawFrame env v s = s" by (auto simp: compress_drawFrame_eq)
next
  assume t: "paused v \<or> ended v \<or> en \<le> currentTime v"
  then show "raf (cut_drawFrame st en v s) = raf s" by (simp add: cut_drawFrame_eq)
  from t show "frames_of (trace (cut_drawFrame st en v s)) = frames_of (trace s)"
    by (simp add: cut_drawFrame_eq)
  from t show "last (trace (cut_drawFrame st en v s)) = Pause" by (simp add: cut_drawFrame_eq)
  assume "recorder s = Some Recording"
  with t show "recorder (cut_drawFrame st en v s) = Some Inactive"
    and "trace (cut_drawFrame st en v s) = trace s @ [RecorderStop, Progress (Num 100), Pause]"
    by (simp_all add: cut_drawFrame_eq)
next
  assume "play_pending (cut_run env f st en evs) \<or> raf (cut_run env f st en evs) > 0"
  then show "recorder (cut_run env f st en evs) = Some Recording"
    using cut_enabled_recording [OF cut_inv_run] by blast
next
  show "\<forall>t\<in>set (frames_of (trace (cut_run env f st en evs))). t < en"
    by (rule cut_frames_run)
next
  show "\<forall>pre post. trace (cut_run env f st en evs) = pre @ Pause # post \<longrightarrow>
        frames_of post = [] \<and> RequestAnimationFrame \<notin> set post"
    using cut_calm_run [of env f st en evs] unfolding calm_def quiet_actions_def by blast
qed

theorem tick_loop_stops_witness:
  "ended \<lparr>paused = False, ended = True, currentTime = 60\<rparr>
   \<and> compress_drawFrame sample_env \<lparr>paused = False, ended = True, currentTime = 60\<rparr>
        (compress_run sample_env big_file [LoadedMetadata]) = compress_run sample_env big_file [LoadedMetadata]
   \<and> (20 :: rat) \<le> currentTime (playing 20)
   \<and> recorder (cut_run sample_env small_file 10 20 (take 4 cut_ticks)) = Some Recording
   \<and> raf (cut_run sample_env small_file 10 20 (take 4 cut_ticks)) = 1
   \<and> raf (cut_drawFrame 10 20 (playing 20) (cut_run sample_env small_file 10 20 (take 4 cut_ticks))) = 1
   \<and> raf (cut_run sample_env small_file 10 20 cut_ticks) = 0
   \<and> recorder (cut_drawFrame 10 20 (playing 20) (cut_run sample_env small_file 10 20 (take 4 cut_ticks)))
       = Some Inactive
   \<and> last (trace (cut_drawFrame 10 20 (playing 20) (cut_run sample_env small_file 10 20 (take 4 cut_ticks))))
       = Pause
   \<and> frames_of (trace (cut_run sample_env small_file 10 20 cut_events)) = [10, 15]
   \<and> trace (cut_run sample_env small_file 10 20 cut_events) =
       take 19 (trace (cut_run sample_env small_file 10 20 cut_events)) @ Pause
       # drop 20 (trace (cut_run sample_env small_file 10 20 cut_events))
   \<and> frames_of (drop 20 (trace (cut_run sample_env small_file 10 20 cut_events))) = []"
proof -
  let ?s = "cut_run sample_env small_file 10 20 (take 4 cut_ticks)"
  have h1: "ended \<lparr>paused = False, ended = True, currentTime = 60\<rparr>" by simp
  have h2: "paused (playing 20) \<or> ended (playing 20) \<or> (20 :: rat) \<le> currentTime (playing 20)"
    by (simp add: playing_def)
  have h3: "play_pending ?s \<or> raf ?s > 0" by (simp add: eval)
  have raf1: "raf ?s = 1" by (simp add: eval)
  have raf0: "raf (cut_run sample_env small_file 10 20 cut_ticks) = 0" by (simp add: eval)
  have tr: "trace (cut_run sample_env small_file 10 20 cut_events) =
      [CreateVideo, CreateObjectURL, SetCurrentTime 10, CreateCanvas 1280 720, CaptureStream 30,
       NewRecorder ''video/webm;codecs=vp9'' 2500000, SetCurrentTime 10, SetTimeout 200,
       RecorderStart, SetPlaybackRate 1, Play,
       DrawImage 10 (Num 1280) (Num 720), Progress (Num 0), RequestAnimationFrame,
       DrawImage 15 (Num 1280) (Num 720), Progress (Num 50), RequestAnimationFrame,
       RecorderStop, Progress (Num 100), Pause,
       CreateBlob (Blob [7] ''video/webm''), RevokeObjectURL, Resolve (Blob [7] ''video/webm'')]"
    by (simp add: eval)
  note a = tick_loop_stops [where v = "\<lparr>paused = False, ended = True, currentTime = 60\<rparr>"
      and env = sample_env and s = "compress_run sample_env big_file [LoadedMetadata]"]
  note b = tick_loop_stops [where v = "playing 20" and st = "10" and en = "20" and s = "?s"
      and env = sample_env and f = small_file and evs = "take 4 cut_ticks"]
  from a h1 have c1: "compress_drawFrame sample_env \<lparr>paused = False, ended = True, currentTime = 60\<rparr>
        (compress_run sample_env big_file [LoadedMetadata]) = compress_run sample_env big_file [LoadedMetadata]"
    by blast
  from b h3 have c2: "recorder ?s = Some Recording" by blast
  from b h2 c2 have c3: "raf (cut_drawFrame 10 20 (playing 20) ?s) = raf ?s"
    and c4: "recorder (cut_drawFrame 10 20 (playing 20) ?s) = Some Inactive"
    and c5: "last (trace (cut_drawFrame 10 20 (playing 20) ?s)) = Pause"
    by blast+
  show ?thesis using h1 c1 c2 c3 c4 c5 raf1 raf0 by (simp add: tr playing_def)
qed

text \<open>
  The claim as it was stated also has the loop stop when the clock reaches the target end,
  which for a compression is the duration. The tick of the compression does not compare
  the clock with the duration, it relies on the flag \<^verbatim>\<open>ended\<close>: on a source of 60 seconds,
  a tick that reads 60 with neither flag set samples the frame and requests the next tick,
  and so does the next one at 61.
\<close>

theorem compress_tick_ignores_end:
  "duration sample_env = Num 60
   \<and> raf (compress_run sample_env big_file [LoadedMetadata, PlayFulfilled (playing 60)]) = 1
   \<and> frames_of (trace (compress_run sample_env big_file [LoadedMetadata, PlayFulfilled (playing 60)])) = [60]
   \<and> frames_of (trace (compress_run sample_env big_file
        [LoadedMetadata, PlayFulfilled (playing 60), AnimationFrame (playing 61)])) = [60, 61]
   \<and> raf (compress_run sample_env big_file
        [LoadedMetadata, PlayFulfilled (playing 60), AnimationFrame (playing 61)]) = 1"
  by (simp add: eval)

section \<open>The size of the canvas\<close>

















section \<open>Stopping the recorder\<close>

lemma compress_budget_compressVideo: "compress_budget (compressVideo env g) \<le> 1"
  by (simp add: compressVideo_eq fast_path_def init_def compress_budget_def)

lemma compress_budget_fire: "compress_budget (compress_fire env e s) \<le> compress_budget s"
  by (cases e; simp add: summaries act_def reject_def Let_def; simp add: compress_budget_def; auto)

lemma compress_budget_run: "compress_budget (compress_run env g evs) \<le> 1"
proof (induction evs rule: rev_induct)
  case Nil
  show ?case using compress_budget_compressVideo [of env g] by simp
next
  case (snoc e evs)
  have "compress_budget (compress_run env g (evs @ [e])) \<le> compress_budget (compress_run env g evs)"
    by (simp add: compress_budget_fire)
  with snoc show ?case by linarith
qed

lemma blobs_le_cut_budget: "length (blobs_of (trace s)) \<le> cut_budget s"
  by (simp add: cut_budget_def)

lemma blobs_le_compress_budget: "length (blobs_of (trace s)) \<le> compress_budget s"
  by (simp add: compress_budget_def)

text \<open>
  Claim C8, as the code has it. In an extraction the call of \<^verbatim>\<open>stop()\<close> is guarded: a tick
  that finds the end of the range, or the video paused or ended, while the recorder is
  not recording only pauses the video. In a compression the timer started by \<^verbatim>\<open>ended\<close>
  calls \<^verbatim>\<open>stop()\<close> without a test and reports 100 each time it runs; on a recorder that is
  not recording the call changes nothing in the recorder, as the platform has it. In both
  operations the recorder's output is put together at most once in a run.
\<close>

theorem finalize_at_most_once:
  "(recorder s \<noteq> Some Recording \<and> (paused v \<or> ended v \<or> en \<le> currentTime v) \<longrightarrow>
      cut_drawFrame st en v s = act Pause s)
   \<and> length (blobs_of (trace (cut_run env f st en evs))) \<le> 1
   \<and> length (blobs_of (trace (compress_run env g evs'))) \<le> 1
   \<and> trace (compress_timeout s) = trace s @ [RecorderStop, Progress (Num 100)]
   \<and> (recorder s \<noteq> Some Recording \<and> recorder s \<noteq> Some Paused \<longrightarrow>
        recorder (compress_timeout s) = recorder s
        \<and> stop_pending (compress_timeout s) = stop_pending s)"
proof (intro conjI impI)
  assume "recorder s \<noteq> Some Recording \<and> (paused v \<or> ended v \<or> en \<le> currentTime v)"
  then show "cut_drawFrame st en v s = act Pause s"
    by (simp add: cut_drawFrame_eq act_def)
next
  show "length (blobs_of (trace (cut_run env f st en evs))) \<le> 1"
    using blobs_le_cut_budget [of "cut_run env f st en evs"] cut_budget_run [of env f st en evs]
    by linarith
next
  show "length (blobs_of (trace (compress_run env g evs'))) \<le> 1"
    using blobs_le_compress_budget [of "compress_run env g evs'"] compress_budget_run [of env g evs']
    by linarith
next
  show "trace (compress_timeout s) = trace s @ [RecorderStop, Progress (Num 100)]"
    by (simp add: compress_timeout_eq)
next
  assume "recorder s \<noteq> Some Recording \<and> recorder s \<noteq> Some Paused"
  then show "recorder (compress_timeout s) = recorder s"
    and "stop_pending (compress_timeout s) = stop_pending s"
    by (simp_all add: compress_timeout_eq)
qed

theorem finalize_at_most_once_witness:
  "recorder (cut_run sample_env small_file 10 20 cut_events) = Some Inactive
   \<and> ended \<lparr>paused = False, ended = True, currentTime = 60\<rparr>
   \<and> cut_drawFrame 10 20 \<lparr>paused = False, ended = True, currentTime = 60\<rparr>
        (cut_run sample_env small_file 10 20 cut_events) =
      act Pause (cut_run sample_env small_file 10 20 cut_events)
   \<and> blobs_of (trace (cut_run sample_env small_file 10 20 (cut_events @ [RecorderStopped, RecorderStopped])))
      = [Blob [7] ''video/webm'']
   \<and> recorder (compress_run sample_env big_file (take 5 twice_ended)) = Some Inactive
   \<and> recorder (compress_timeout (compress_run sample_env big_file (take 5 twice_ended))) = Some Inactive
   \<and> blobs_of (trace (compress_run sample_env big_file (twice_ended @ [RecorderStopped, RecorderStopped])))
      = [Blob [] ''video/webm'']"
proof -
  let ?s = "cut_run sample_env small_file 10 20 cut_events"
  let ?c = "compress_run sample_env big_file (take 5 twice_ended)"
  have h1: "recorder ?s \<noteq> Some Recording
      \<and> (paused \<lparr>paused = False, ended = True, currentTime = 60\<rparr>
         \<or> ended \<lparr>paused = False, ended = True, currentTime = 60\<rparr>
         \<or> (20 :: rat) \<le> currentTime \<lparr>paused = False, ended = True, currentTime = 60\<rparr>)"
    by (simp add: eval)
  have h2: "recorder ?c \<noteq> Some Recording \<and> recorder ?c \<noteq> Some Paused"
    by (simp add: eval)
  have r1: "recorder ?s = Some Inactive" by (simp add: eval)
  have r2: "recorder ?c = Some Inactive" by (simp add: eval)
  have b1: "blobs_of (trace (cut_run sample_env small_file 10 20
      (cut_events @ [RecorderStopped, RecorderStopped]))) = [Blob [7] ''video/webm'']"
    by (simp add: eval)
  have b2: "blobs_of (trace (compress_run sample_env big_file
      (twice_ended @ [RecorderStopped, RecorderStopped]))) = [Blob [] ''video/webm'']"
    by (simp add: eval)
  note a = finalize_at_most_once [where s = "?s" and st = "10" and en = "20"
      and v = "\<lparr>paused = False, ended = True, currentTime = 60\<rparr>"]
  note b = finalize_at_most_once [where s = "?c"]
  from a [THEN conjunct1] h1
  have c1: "cut_drawFrame 10 20 \<lparr>paused = False, ended = True, currentTime = 60\<rparr> ?s = act Pause ?s"
    by (rule mp)
  from b [THEN conjunct2, THEN conjunct2, THEN conjunct2, THEN conjunct2] h2
  have c2: "recorder (compress_timeout ?c) = recorder ?c" by simp
  show ?thesis using r1 r2 b1 b2 c1 c2 by simp
qed

text \<open>
  The claim as it was stated makes the trigger a no-op in both operations when the
  recorder is not recording. After the first timer of a compression the recorder is
  inactive; the same trigger run again calls \<^verbatim>\<open>stop()\<close> and reports 100 a second time.
\<close>

theorem compress_stop_unguarded:
  "recorder (compress_run sample_env big_file (take 5 twice_ended)) = Some Inactive
   \<and> trace (compress_timeout (compress_run sample_env big_file (take 5 twice_ended))) =
       trace (compress_run sample_env big_file (take 5 twice_ended)) @ [RecorderStop, Progress (Num 100)]
   \<and> progress_of (trace (compress_run sample_env big_file twice_ended)) =
       [Num 0, Num 50, Num 100, Num 100]
   \<and> drop 14 (trace (compress_run sample_env big_file twice_ended)) =
       [SetTimeout 100, RecorderStop, Progress (Num 100), SetTimeout 100, RecorderStop, Progress (Num 100)]"
  by (simp add: eval)


section \<open>Chunks and the artifact\<close>

lemma cut_recorder_settled: "cut_inv s \<Longrightarrow> recorder s \<noteq> None \<Longrightarrow> settled s"
  by (auto simp: cut_inv_def phases)

lemma cut_chunks_fire:
  assumes "settled s" and "recorder s \<noteq> None"
  shows "chunks (cut_fire env st en e s) = chunks s @ filter nonempty (emitted [e])
     \<and> recorder (cut_fire env st en e s) \<noteq> None"
  using assms unfolding settled_def
  by (cases e; simp add: summaries act_def reject_def Let_def nonempty_def cong: conj_cong; auto)

lemma cut_chunks_run:
  assumes "recorder (cut_run env f st en evs) \<noteq> None"
  shows "chunks (cut_run env f st en (evs @ evs')) =
           chunks (cut_run env f st en evs) @ filter nonempty (emitted evs')
     \<and> recorder (cut_run env f st en (evs @ evs')) \<noteq> None"
proof (induction evs' rule: rev_induct)
  case Nil
  show ?case using assms by simp
next
  case (snoc e evs')
  let ?s = "cut_run env f st en (evs @ evs')"
  have run: "cut_run env f st en (evs @ evs' @ [e]) = cut_fire env st en e ?s"
    using cut_run_snoc [of env f st en "evs @ evs'" e] by simp
  have "settled ?s" using snoc cut_inv_run [of env f st en "evs @ evs'"]
    by (simp add: cut_recorder_settled)
  from cut_chunks_fire [OF this, of env st en e] snoc show ?case
    by (simp add: run)
qed

lemma compress_recorder_loaded_fire:
  "(recorder s \<noteq> None \<longrightarrow> loaded s) \<Longrightarrow>
   (recorder (compress_fire env e s) \<noteq> None \<longrightarrow> loaded (compress_fire env e s))"
  by (cases e; simp add: summaries act_def reject_def Let_def; auto)

lemma compress_recorder_loaded:
  "recorder (compress_run env g evs) \<noteq> None \<longrightarrow> loaded (compress_run env g evs)"
proof (induction evs rule: rev_induct)
  case Nil
  show ?case by (simp add: compressVideo_eq fast_path_def init_def)
next
  case (snoc e evs)
  show ?case using compress_recorder_loaded_fire [OF snoc, of env e] by simp
qed

lemma compress_chunks_fire:
  assumes "loaded s" and "recorder s \<noteq> None"
  shows "chunks (compress_fire env e s) = chunks s @ filter nonempty (emitted [e])
     \<and> recorder (compress_fire env e s) \<noteq> None"
  using assms
  by (cases e; simp add: summaries act_def reject_def Let_def nonempty_def; auto)

lemma compress_chunks_run:
  assumes "recorder (compress_run env g evs) \<noteq> None"
  shows "chunks (compress_run env g (evs @ evs')) =
           chunks (compress_run env g evs) @ filter nonempty (emitted evs')
     \<and> recorder (compress_run env g (evs @ evs')) \<noteq> None"
proof (induction evs' rule: rev_induct)
  case Nil
  show ?case using assms by simp
next
  case (snoc e evs')
  let ?s = "compress_run env g (evs @ evs')"
  have run: "compress_run env g (evs @ evs' @ [e]) = compress_fire env e ?s"
    using compress_run_snoc [of env g "evs @ evs'" e] by simp
  have "loaded ?s" using snoc compress_recorder_loaded [of env g "evs @ evs'"] by simp
  from compress_chunks_fire [OF this, of env e] snoc show ?case
    by (simp add: run)
qed

lemma cut_resolved_cutVideo: "outcome (cutVideo env f st en) \<noteq> Resolved b"
  by (simp add: cutVideo_eq startProcessing_eq cut_called_def reject_def act_def init_def Let_def)

lemma cut_resolved_fire:
  "outcome (cut_fire env st en e s) = Resolved b \<Longrightarrow>
     outcome s = Resolved b
     \<or> (e = RecorderStopped \<and> stop_pending s \<and> b = new_blob (chunks s) ''video/webm'')"
  by (cases e; simp add: summaries act_def reject_def Let_def split: if_splits)

lemma cut_resolved_run:
  "outcome (cut_run env f st en evs) = Resolved b \<Longrightarrow>
     \<exists>evs1 evs2. evs = evs1 @ RecorderStopped # evs2 \<and> stop_pending (cut_run env f st en evs1)
       \<and> b = new_blob (chunks (cut_run env f st en evs1)) ''video/webm''"
proof (induction evs rule: rev_induct)
  case Nil
  then show ?case by (simp add: cut_resolved_cutVideo)
next
  case (snoc e evs)
  from snoc.prems have "outcome (cut_fire env st en e (cut_run env f st en evs)) = Resolved b"
    by simp
  from cut_resolved_fire [OF this] show ?case
  proof
    assume "outcome (cut_run env f st en evs) = Resolved b"
    with snoc.IH obtain evs1 evs2 where "evs = evs1 @ RecorderStopped # evs2"
      and "stop_pending (cut_run env f st en evs1)"
      and "b = new_blob (chunks (cut_run env f st en evs1)) ''video/webm''"
      by blast
    then have "evs @ [e] = evs1 @ RecorderStopped # (evs2 @ [e])" by simp
    then show ?thesis
      using \<open>stop_pending (cut_run env f st en evs1)\<close>
        \<open>b = new_blob (chunks (cut_run env f st en evs1)) ''video/webm''\<close> by blast
  next
    assume "e = RecorderStopped \<and> stop_pending (cut_run env f st en evs)
      \<and> b = new_blob (chunks (cut_run env f st en evs)) ''video/webm''"
    then have "evs @ [e] = evs @ RecorderStopped # []" and "stop_pending (cut_run env f st en evs)"
      and "b = new_blob (chunks (cut_run env f st en evs)) ''video/webm''" by simp_all
    then show ?thesis by blast
  qed
qed

lemma compress_resolved_fire:
  "outcome (compress_fire env e s) = Resolved b \<Longrightarrow>
     outcome s = Resolved b
     \<or> (e = RecorderStopped \<and> stop_pending s \<and> b = new_blob (chunks s) ''video/webm'')"
  by (cases e; simp add: summaries act_def reject_def Let_def split: if_splits)

lemma compress_resolved_run:
  assumes "20 * 1024 * 1024 \<le> blob_size g"
  shows "outcome (compress_run env g evs) = Resolved b \<Longrightarrow>
     \<exists>evs1 evs2. evs = evs1 @ RecorderStopped # evs2 \<and> stop_pending (compress_run env g evs1)
       \<and> b = new_blob (chunks (compress_run env g evs1)) ''video/webm''"
proof (induction evs rule: rev_induct)
  case Nil
  then show ?case using assms by (simp add: compressVideo_eq init_def)
next
  case (snoc e evs)
  from snoc.prems have "outcome (compress_fire env e (compress_run env g evs)) = Resolved b"
    by simp
  from compress_resolved_fire [OF this] show ?case
  proof
    assume "outcome (compress_run env g evs) = Resolved b"
    with snoc.IH obtain evs1 evs2 where "evs = evs1 @ RecorderStopped # evs2"
      and "stop_pending (compress_run env g evs1)"
      and "b = new_blob (chunks (compress_run env g evs1)) ''video/webm''"
      by blast
    then have "evs @ [e] = evs1 @ RecorderStopped # (evs2 @ [e])" by simp
    then show ?thesis
      using \<open>stop_pending (compress_run env g evs1)\<close>
        \<open>b = new_blob (chunks (compress_run env g evs1)) ''video/webm''\<close> by blast
  next
    assume "e = RecorderStopped \<and> stop_pending (compress_run env g evs)
      \<and> b = new_blob (chunks (compress_run env g evs)) ''video/webm''"
    then have "evs @ [e] = evs @ RecorderStopped # []" and "stop_pending (compress_run env g evs)"
      and "b = new_blob (chunks (compress_run env g evs)) ''video/webm''" by simp_all
    then show ?thesis by blast
  qed
qed

text \<open>
  Claim C9, as the code has it. Once the recorder exists, the events that follow add to
  \<^verbatim>\<open>chunks\<close> exactly the non-empty data the recorder emits, at the end and in the order of
  emission, and nothing else touches the array. An extraction is resolved only by the
  recorder's \<^verbatim>\<open>stop\<close> event, with the blob of type \<^verbatim>\<open>video/webm\<close> whose bytes are the
  concatenation of the chunks held at that moment; so is a compression of a file at or
  above the threshold.
\<close>

theorem chunks_and_artifact:
  "(recorder (cut_run env f st en evs) \<noteq> None \<longrightarrow>
      chunks (cut_run env f st en (evs @ evs')) =
        chunks (cut_run env f st en evs) @ filter nonempty (emitted evs'))
   \<and> (recorder (compress_run env g evs) \<noteq> None \<longrightarrow>
      chunks (compress_run env g (evs @ evs')) =
        chunks (compress_run env g evs) @ filter nonempty (emitted evs'))
   \<and> (\<forall>b. outcome (cut_run env f st en evs) = Resolved b \<longrightarrow>
        (\<exists>evs1 evs2. evs = evs1 @ RecorderStopped # evs2 \<and> stop_pending (cut_run env f st en evs1)
           \<and> b = new_blob (chunks (cut_run env f st en evs1)) ''video/webm''))
   \<and> (20 * 1024 * 1024 \<le> blob_size g \<longrightarrow>
        (\<forall>b. outcome (compress_run env g evs) = Resolved b \<longrightarrow>
          (\<exists>evs1 evs2. evs = evs1 @ RecorderStopped # evs2 \<and> stop_pending (compress_run env g evs1)
             \<and> b = new_blob (chunks (compress_run env g evs1)) ''video/webm'')))
   \<and> blob_bytes (new_blob cs ty) = concat (map blob_bytes cs) \<and> blob_type (new_blob cs ty) = ty"
  using cut_chunks_run [of env f st en evs evs'] compress_chunks_run [of env g evs evs']
    cut_resolved_run [of env f st en evs] compress_resolved_run [of g env evs]
  by (simp add: new_blob_def)

theorem chunks_and_artifact_witness:
  "recorder (cut_run sample_env small_file 10 20 [LoadedMetadata]) = Some Inactive
   \<and> chunks (cut_run sample_env small_file 10 20 ([LoadedMetadata] @ emission)) =
       [Blob [7] ''video/webm'', Blob [8, 9] ''video/webm'']
   \<and> recorder (compress_run sample_env big_file [LoadedMetadata]) = Some Recording
   \<and> chunks (compress_run sample_env big_file ([LoadedMetadata] @ emission)) =
       [Blob [7] ''video/webm'', Blob [8, 9] ''video/webm'']
   \<and> outcome (cut_run sample_env small_file 10 20 cut_events) = Resolved (Blob [7] ''video/webm'')
   \<and> cut_events = (cut_ticks @ [DataAvailable (Blob [7] ''video/webm'')]) @ RecorderStopped # []
   \<and> stop_pending (cut_run sample_env small_file 10 20 (cut_ticks @ [DataAvailable (Blob [7] ''video/webm'')]))
   \<and> new_blob (chunks (cut_run sample_env small_file 10 20
         (cut_ticks @ [DataAvailable (Blob [7] ''video/webm'')]))) ''video/webm'' = Blob [7] ''video/webm''
   \<and> 20 * 1024 * 1024 \<le> blob_size big_file
   \<and> outcome (compress_run sample_env big_file compress_events) = Resolved (Blob [8, 9] ''video/webm'')
   \<and> compress_events = take 6 compress_events @ RecorderStopped # []
   \<and> new_blob (chunks (compress_run sample_env big_file (take 6 compress_events))) ''video/webm'' =
       Blob [8, 9] ''video/webm''"
proof -
  have r1: "recorder (cut_run sample_env small_file 10 20 [LoadedMetadata]) = Some Inactive"
    and c1: "chunks (cut_run sample_env small_file 10 20 [LoadedMetadata]) = []"
    and r2: "recorder (compress_run sample_env big_file [LoadedMetadata]) = Some Recording"
    and c2: "chunks (compress_run sample_env big_file [LoadedMetadata]) = []"
    by (simp_all add: eval)
  have em: "filter nonempty (emitted emission) = [Blob [7] ''video/webm'', Blob [8, 9] ''video/webm'']"
    by (simp add: emission_def nonempty_def blob_size_def)
  note inst = chunks_and_artifact [where env = sample_env and f = small_file and st = "10" and en = "20"
      and evs = "[LoadedMetadata]" and evs' = emission and g = big_file]
  from inst [THEN conjunct1] r1
  have k1: "chunks (cut_run sample_env small_file 10 20 ([LoadedMetadata] @ emission)) =
      chunks (cut_run sample_env small_file 10 20 [LoadedMetadata]) @ filter nonempty (emitted emission)"
    by simp
  from inst [THEN conjunct2, THEN conjunct1] r2
  have k2: "chunks (compress_run sample_env big_file ([LoadedMetadata] @ emission)) =
      chunks (compress_run sample_env big_file [LoadedMetadata]) @ filter nonempty (emitted emission)"
    by simp
  have rest: "outcome (cut_run sample_env small_file 10 20 cut_events) = Resolved (Blob [7] ''video/webm'')
   \<and> cut_events = (cut_ticks @ [DataAvailable (Blob [7] ''video/webm'')]) @ RecorderStopped # []
   \<and> stop_pending (cut_run sample_env small_file 10 20 (cut_ticks @ [DataAvailable (Blob [7] ''video/webm'')]))
   \<and> new_blob (chunks (cut_run sample_env small_file 10 20
         (cut_ticks @ [DataAvailable (Blob [7] ''video/webm'')]))) ''video/webm'' = Blob [7] ''video/webm''
   \<and> 20 * 1024 * 1024 \<le> blob_size big_file
   \<and> outcome (compress_run sample_env big_file compress_events) = Resolved (Blob [8, 9] ''video/webm'')
   \<and> compress_events = take 6 compress_events @ RecorderStopped # []
   \<and> new_blob (chunks (compress_run sample_env big_file (take 6 compress_events))) ''video/webm'' =
       Blob [8, 9] ''video/webm''"
    by (simp add: eval)
  show ?thesis using r1 r2 k1 k2 c1 c2 em rest by simp
qed

text \<open>
  The claim as it was stated makes the finalize signal the only way in which an operation
  resolves. A compression of a file below the threshold resolves with the file itself:
  no recorder, no chunk, no blob put together.
\<close>

theorem fast_path_resolves_without_finalize:
  "outcome (compress_run sample_env small_file []) = Resolved small_file
   \<and> trace (compress_run sample_env small_file []) = [Progress (Num 100), Resolve small_file]
   \<and> blobs_of (trace (compress_run sample_env small_file [])) = []
   \<and> recorder (compress_run sample_env small_file []) = None
   \<and> chunks (compress_run sample_env small_file []) = []
   \<and> small_file \<noteq> new_blob (chunks (compress_run sample_env small_file [])) ''video/webm''"
  by (simp add: eval)

end
